theory Spec2Isabelle
  imports Main "HOL-Library.Sublist" "HOL-Library.AList"
begin

section \<open>JavaScript values and errors\<close>

text \<open>
  The plugin handlers of \<^verbatim>\<open>lib/pluginHandlers.js\<close> receive a directive object whose
  attributes are strings or \<^verbatim>\<open>undefined\<close>; an attribute is a \<open>string option\<close>, with
  \<open>None\<close> for \<^verbatim>\<open>undefined\<close>. Every \<^verbatim>\<open>throw\<close> of the source is the \<open>Inl\<close> branch of a
  sum: \<open>CordovaError\<close> carries the message the source builds, \<open>TypeError\<close> is what the
  JavaScript runtime raises when a property of \<^verbatim>\<open>undefined\<close> is read or when a function of
  the path module is given a value that is not a string, and \<open>SystemError\<close> is an error of
  a file system call, with its code.
\<close>

datatype errno = ENOENT | ENOTDIR | ELOOP | EEXIST | EISDIR | ENOTEMPTY | EBUSY
  | ERR_FS_CP_EINVAL | ERR_FS_CP_DIR_TO_NON_DIR | ERR_FS_CP_NON_DIR_TO_DIR

datatype error =
    CordovaError string
  | TypeError string
  | SystemError errno

text \<open>\<^verbatim>\<open>!x\<close> on a string or \<^verbatim>\<open>undefined\<close>: both \<^verbatim>\<open>undefined\<close> and the empty string are falsy.\<close>

definition falsy :: "string option \<Rightarrow> bool" where
  "falsy x = (x = None \<or> x = Some [])"

text \<open>\<^verbatim>\<open>ToString\<close>, which a regular expression applies to the value it tests.\<close>

definition ToString :: "string option \<Rightarrow> string" where
  "ToString x = (case x of None \<Rightarrow> ''undefined'' | Some s \<Rightarrow> s)"

text \<open>\<^verbatim>\<open>validateString\<close> of the path module: any argument that is not a string is refused.\<close>

definition ERR_INVALID_ARG_TYPE :: error where
  "ERR_INVALID_ARG_TYPE = TypeError ''The path argument must be of type string. Received undefined''"

definition validateString :: "string option \<Rightarrow> error + string" where
  "validateString x = (case x of None \<Rightarrow> Inl ERR_INVALID_ARG_TYPE | Some s \<Rightarrow> Inr s)"

fun validateStrings :: "string option list \<Rightarrow> error + string list" where
  "validateStrings [] = Inr []"
| "validateStrings (x # xs) =
     (case validateString x of
        Inl e \<Rightarrow> Inl e
      | Inr s \<Rightarrow> (case validateStrings xs of Inl e \<Rightarrow> Inl e | Inr ss \<Rightarrow> Inr (s # ss)))"

definition endsWith :: "string \<Rightarrow> string \<Rightarrow> bool" where
  "endsWith s e = suffix e s"

definition startsWith :: "string \<Rightarrow> string \<Rightarrow> bool" where
  "startsWith s e = prefix e s"

section \<open>The posix path module\<close>

text \<open>
  The functions of \<^verbatim>\<open>node:path\<close> that the handlers call, for posix paths. A path string is
  cut at every \<^verbatim>\<open>/\<close> (empty segments kept), and \<open>normalizeString\<close> walks the segments as
  the library does: empty segments and \<^verbatim>\<open>.\<close> are dropped, \<^verbatim>\<open>..\<close> removes the segment before
  it, or is kept when there is none and the path may climb above its start.
\<close>

fun split_sep :: "string \<Rightarrow> string list" where
  "split_sep [] = [[]]"
| "split_sep (c # cs) =
     (if c = CHR ''/'' then [] # split_sep cs
      else (case split_sep cs of [] \<Rightarrow> [[c]] | s # ss \<Rightarrow> (c # s) # ss))"

fun join_sep :: "string list \<Rightarrow> string" where
  "join_sep [] = []"
| "join_sep [s] = s"
| "join_sep (s # t # ss) = s @ ''/'' @ join_sep (t # ss)"

text \<open>The second argument is the result so far, last segment first.\<close>

fun norm_segs :: "bool \<Rightarrow> string list \<Rightarrow> string list \<Rightarrow> string list" where
  "norm_segs allowAboveRoot res [] = rev res"
| "norm_segs allowAboveRoot res (s # ss) =
     (if s = [] \<or> s = ''.'' then norm_segs allowAboveRoot res ss
      else if s = ''..'' then
        (if res \<noteq> [] \<and> hd res \<noteq> ''..'' then norm_segs allowAboveRoot (tl res) ss
         else if allowAboveRoot then norm_segs allowAboveRoot (''..'' # res) ss
         else norm_segs allowAboveRoot res ss)
      else norm_segs allowAboveRoot (s # res) ss)"

definition normalizeString :: "string \<Rightarrow> bool \<Rightarrow> string" where
  "normalizeString p allowAboveRoot = join_sep (norm_segs allowAboveRoot [] (split_sep p))"

definition isAbsolute :: "string \<Rightarrow> bool" where
  "isAbsolute p = (p \<noteq> [] \<and> hd p = CHR ''/'')"

definition path_normalize :: "string \<Rightarrow> string" where
  "path_normalize p =
     (if p = [] then ''.''
      else let trailingSeparator = (last p = CHR ''/'');
               s = normalizeString p (\<not> isAbsolute p)
           in if s = [] then (if isAbsolute p then ''/'' else if trailingSeparator then ''./'' else ''.'')
              else let s' = (if trailingSeparator then s @ ''/'' else s)
                   in if isAbsolute p then ''/'' @ s' else s')"

definition path_join :: "string list \<Rightarrow> string" where
  "path_join args =
     (let parts = filter (\<lambda>a. a \<noteq> []) args
      in if parts = [] then ''.'' else path_normalize (join_sep parts))"

text \<open>
  \<^verbatim>\<open>path.resolve\<close> reads its arguments from the last to the first, and then the working
  directory, until the path built so far is absolute. The list given to \<open>resolve_collect\<close>
  is in that order.
\<close>

fun resolve_collect :: "string list \<Rightarrow> string \<Rightarrow> string \<times> bool" where
  "resolve_collect [] resolvedPath = (resolvedPath, False)"
| "resolve_collect (p # ps) resolvedPath =
     (if p = [] then resolve_collect ps resolvedPath
      else if isAbsolute p then (p @ ''/'' @ resolvedPath, True)
      else resolve_collect ps (p @ ''/'' @ resolvedPath))"

definition path_resolve :: "string \<Rightarrow> string list \<Rightarrow> string" where
  "path_resolve cwd args =
     (case resolve_collect (rev (cwd # args)) [] of
        (resolvedPath, resolvedAbsolute) \<Rightarrow>
          let s = normalizeString resolvedPath (\<not> resolvedAbsolute)
          in if resolvedAbsolute then ''/'' @ s else if s \<noteq> [] then s else ''.'')"

text \<open>\<^verbatim>\<open>path.basename\<close>: the last segment, trailing separators ignored.\<close>

definition strip_trailing_sep :: "string \<Rightarrow> string" where
  "strip_trailing_sep p = rev (dropWhile (\<lambda>c. c = CHR ''/'') (rev p))"

definition path_basename :: "string \<Rightarrow> string" where
  "path_basename p = rev (takeWhile (\<lambda>c. c \<noteq> CHR ''/'') (rev (strip_trailing_sep p)))"

text \<open>
  \<^verbatim>\<open>path.extname\<close>: from the last \<^verbatim>\<open>.\<close> of the basename to its end; empty when there is no
  \<^verbatim>\<open>.\<close>, when the only \<^verbatim>\<open>.\<close> is the first character, and for \<^verbatim>\<open>..\<close>.
\<close>

definition path_extname :: "string \<Rightarrow> string" where
  "path_extname p =
     (let b = path_basename p;
          e = rev (takeWhile (\<lambda>c. c \<noteq> CHR ''.'') (rev b))
      in if CHR ''.'' \<notin> set b \<or> length e + 1 = length b \<or> b = ''..'' then []
         else CHR ''.'' # e)"

text \<open>
  \<^verbatim>\<open>path.basename(p, ext)\<close>: the basename without \<open>ext\<close>, when the basename ends with
  \<open>ext\<close> and is more than \<open>ext\<close>.
\<close>

definition path_basename_ext :: "string \<Rightarrow> string \<Rightarrow> string" where
  "path_basename_ext p ext =
     (let b = path_basename p
      in if ext \<noteq> [] \<and> length ext \<le> length p \<and> ext = p then []
         else if ext \<noteq> [] \<and> suffix ext b \<and> b \<noteq> ext then take (length b - length ext) b
         else b)"

text \<open>
  \<^verbatim>\<open>path.dirname\<close>: the path up to the separator before the last segment; the first
  character is never taken for that separator.
\<close>

definition path_dirname :: "string \<Rightarrow> string" where
  "path_dirname p =
     (if p = [] then ''.''
      else let r = dropWhile (\<lambda>c. c \<noteq> CHR ''/'')
                     (dropWhile (\<lambda>c. c = CHR ''/'') (rev (tl p)))
           in if r = [] then (if isAbsolute p then ''/'' else ''.'')
              else if isAbsolute p \<and> tl r = [] then ''//''
              else hd p # rev (tl r))"

text \<open>
  \<^verbatim>\<open>path.relative(from, to)\<close>: both paths are resolved, their common leading segments are
  dropped, and the result climbs out of what is left of \<open>from\<close> and descends into what is
  left of \<open>to\<close>.
\<close>

definition segments :: "string \<Rightarrow> string list" where
  "segments p = filter (\<lambda>s. s \<noteq> []) (split_sep p)"

fun drop_common :: "string list \<Rightarrow> string list \<Rightarrow> string list \<times> string list" where
  "drop_common (a # as) (b # bs) = (if a = b then drop_common as bs else (a # as, b # bs))"
| "drop_common as bs = (as, bs)"

definition path_relative :: "string \<Rightarrow> string \<Rightarrow> string \<Rightarrow> string" where
  "path_relative cwd from to =
     (case drop_common (segments (path_resolve cwd [from])) (segments (path_resolve cwd [to])) of
        (fs, ts) \<Rightarrow> join_sep (replicate (length fs) ''..'' @ ts))"

text \<open>
  The package \<^verbatim>\<open>is-path-inside\<close>: the path from the parent to the child is not empty, does
  not climb, and is not the child's own absolute path.
\<close>

definition isPathInside :: "string \<Rightarrow> string \<Rightarrow> string \<Rightarrow> bool" where
  "isPathInside cwd childPath parentPath =
     (let relation = path_relative cwd parentPath childPath
      in relation \<noteq> [] \<and> relation \<noteq> ''..'' \<and> \<not> startsWith relation ''../''
         \<and> relation \<noteq> path_resolve cwd [childPath])"

section \<open>The file system\<close>

text \<open>
  The file system is a table from locations to nodes. A location is the list of names
  from the root to the node, with no symbolic link among them; the root is the empty list
  and is always a directory. A node is a regular file with its content, a directory, or a
  symbolic link with its target string. The world also holds the working directory of the
  process, the messages given to \<^verbatim>\<open>events.emit\<close>, and the calls made to the linkage
  operations of the project, which this module delegates.
\<close>

type_synonym path = "string list"

datatype node = File string | Dir | Symlink string

type_synonym filesystem = "(path \<times> node) list"

datatype project_call =
    AddGradleReference string string
  | AddSystemLibrary string string
  | AddSubProject string string
  | RemoveGradleReference string string
  | RemoveSystemLibrary string string
  | RemoveSubProject string string

record world =
  files :: filesystem
  cwd :: string
  emitted :: "(string \<times> string) list"
  calls :: "project_call list"

definition lookup :: "filesystem \<Rightarrow> path \<Rightarrow> node option" where
  "lookup fs p = (if p = [] then Some Dir else map_of fs p)"

definition children :: "filesystem \<Rightarrow> path \<Rightarrow> string list" where
  "children fs d = map (\<lambda>(q, n). last q) (filter (\<lambda>(q, n). q \<noteq> [] \<and> butlast q = d) fs)"

definition remove_tree :: "filesystem \<Rightarrow> path \<Rightarrow> filesystem" where
  "remove_tree fs p = filter (\<lambda>(q, n). \<not> prefix p q) fs"

text \<open>
  Path resolution as the kernel does it, one name at a time from the location \<open>cur\<close>:
  \<^verbatim>\<open>.\<close> stays, \<^verbatim>\<open>..\<close> goes to the parent, a directory is entered, and a symbolic link is
  replaced by its target, at most \<open>fuel\<close> times (\<^verbatim>\<open>ELOOP\<close> after that). With \<open>create\<close>, a
  last name that does not exist is accepted, as for a file about to be created.
\<close>

fun walk :: "nat \<Rightarrow> filesystem \<Rightarrow> bool \<Rightarrow> path \<Rightarrow> string list \<Rightarrow> errno + path" where
  "walk fuel fs create cur [] = Inr cur"
| "walk fuel fs create cur (c # rest) =
     (if c = ''.'' then walk fuel fs create cur rest
      else if c = ''..'' then walk fuel fs create (butlast cur) rest
      else (case lookup fs (cur @ [c]) of
          None \<Rightarrow> if create \<and> rest = [] then Inr (cur @ [c]) else Inl ENOENT
        | Some Dir \<Rightarrow> walk fuel fs create (cur @ [c]) rest
        | Some (File x) \<Rightarrow> if rest = [] then Inr (cur @ [c]) else Inl ENOTDIR
        | Some (Symlink t) \<Rightarrow>
            (case fuel of
               0 \<Rightarrow> Inl ELOOP
             | Suc f \<Rightarrow> walk f fs create (if isAbsolute t then [] else cur) (segments t @ rest))))"

definition MAXSYMLINKS :: nat where
  "MAXSYMLINKS = 40"

definition kpath :: "world \<Rightarrow> string \<Rightarrow> string list" where
  "kpath w s = (if isAbsolute s then segments s else segments (cwd w) @ segments s)"

text \<open>The location a path names, every symbolic link followed (\<^verbatim>\<open>stat\<close>).\<close>

definition resolve_follow :: "world \<Rightarrow> string \<Rightarrow> errno + path" where
  "resolve_follow w s = walk MAXSYMLINKS (files w) False [] (kpath w s)"

text \<open>The location a path names, a symbolic link in the last place not followed (\<^verbatim>\<open>lstat\<close>).\<close>

definition locate :: "world \<Rightarrow> string \<Rightarrow> errno + path" where
  "locate w s =
     (let cs = kpath w s
      in if cs = [] \<or> last cs = ''.'' \<or> last cs = ''..''
         then walk MAXSYMLINKS (files w) False [] cs
         else (case walk MAXSYMLINKS (files w) False [] (butlast cs) of
                 Inl e \<Rightarrow> Inl e
               | Inr d \<Rightarrow> (case lookup (files w) d of
                             Some Dir \<Rightarrow> Inr (d @ [last cs])
                           | _ \<Rightarrow> Inl ENOTDIR)))"

definition lstat :: "world \<Rightarrow> string \<Rightarrow> errno + path \<times> node" where
  "lstat w s =
     (case locate w s of
        Inl e \<Rightarrow> Inl e
      | Inr p \<Rightarrow> (case lookup (files w) p of None \<Rightarrow> Inl ENOENT | Some n \<Rightarrow> Inr (p, n)))"

subsection \<open>The calls of \<^verbatim>\<open>node:fs\<close>\<close>

definition existsSync :: "world \<Rightarrow> string \<Rightarrow> bool" where
  "existsSync w s = (case resolve_follow w s of Inl e \<Rightarrow> False | Inr p \<Rightarrow> True)"

definition realpathSync :: "world \<Rightarrow> string \<Rightarrow> error + string" where
  "realpathSync w s =
     (case resolve_follow w (path_resolve (cwd w) [s]) of
        Inl e \<Rightarrow> Inl (SystemError e)
      | Inr p \<Rightarrow> Inr (''/'' @ join_sep p))"

definition statSync_isDirectory :: "world \<Rightarrow> string \<Rightarrow> error + bool" where
  "statSync_isDirectory w s =
     (case resolve_follow w s of
        Inl e \<Rightarrow> Inl (SystemError e)
      | Inr p \<Rightarrow> Inr (lookup (files w) p = Some Dir))"

definition readdirSync :: "world \<Rightarrow> string \<Rightarrow> error + string list" where
  "readdirSync w s =
     (case resolve_follow w s of
        Inl e \<Rightarrow> Inl (SystemError e)
      | Inr p \<Rightarrow> (case lookup (files w) p of
                    Some Dir \<Rightarrow> Inr (children (files w) p)
                  | _ \<Rightarrow> Inl (SystemError ENOTDIR)))"

definition readFileSync :: "world \<Rightarrow> string \<Rightarrow> error + string" where
  "readFileSync w s =
     (case resolve_follow w s of
        Inl e \<Rightarrow> Inl (SystemError e)
      | Inr p \<Rightarrow> (case lookup (files w) p of
                    Some (File c) \<Rightarrow> Inr c
                  | _ \<Rightarrow> Inl (SystemError EISDIR)))"

text \<open>
  A string of the program is held as its UTF-8 encoding, so writing a string with the
  encoding \<^verbatim>\<open>'utf-8'\<close> writes the string as it is held. Reading with the encoding
  \<^verbatim>\<open>'utf-8'\<close> decodes the bytes of the file, and bytes that are not UTF-8 do not survive:
  the decoder gives the replacement character \<^verbatim>\<open>U+FFFD\<close>, held as \<^verbatim>\<open>EF BF BD\<close>, for every
  byte that cannot start a sequence, for every sequence cut short by a byte that cannot
  continue it (that byte is then read again as the start of a sequence), and for a
  sequence cut short by the end of the file. The arguments of \<open>utf8_decode\<close> are the number
  of continuation bytes still needed, the lowest and the highest byte accepted as the next
  continuation, and the bytes of the sequence read so far. A byte order mark is not
  removed by the decoder.
\<close>

definition REPLACEMENT_CHARACTER :: string where
  "REPLACEMENT_CHARACTER = [CHR 0xEF, CHR 0xBF, CHR 0xBD]"

fun utf8_decode :: "nat \<Rightarrow> nat \<Rightarrow> nat \<Rightarrow> string \<Rightarrow> string \<Rightarrow> string" where
  "utf8_decode needed lower upper seen [] = (if needed = 0 then [] else REPLACEMENT_CHARACTER)"
| "utf8_decode needed lower upper seen (b # bs) =
     (let x = (of_char b :: nat)
      in if needed = 0 then
           (if x \<le> 0x7F then b # utf8_decode 0 0x80 0xBF [] bs
            else if 0xC2 \<le> x \<and> x \<le> 0xDF then utf8_decode 1 0x80 0xBF [b] bs
            else if 0xE0 \<le> x \<and> x \<le> 0xEF
            then utf8_decode 2 (if x = 0xE0 then 0xA0 else 0x80) (if x = 0xED then 0x9F else 0xBF)
                   [b] bs
            else if 0xF0 \<le> x \<and> x \<le> 0xF4
            then utf8_decode 3 (if x = 0xF0 then 0x90 else 0x80) (if x = 0xF4 then 0x8F else 0xBF)
                   [b] bs
            else REPLACEMENT_CHARACTER @ utf8_decode 0 0x80 0xBF [] bs)
         else if x < lower \<or> upper < x
         then REPLACEMENT_CHARACTER @ utf8_decode 0 0x80 0xBF [] (b # bs)
         else if needed = 1 then seen @ [b] @ utf8_decode 0 0x80 0xBF [] bs
         else utf8_decode (needed - 1) 0x80 0xBF (seen @ [b]) bs)"

definition toString_utf8 :: "string \<Rightarrow> string" where
  "toString_utf8 bytes = utf8_decode 0 0x80 0xBF [] bytes"

text \<open>\<^verbatim>\<open>fs.readFileSync(s, 'utf-8')\<close>: the content of the file, decoded.\<close>

definition readFileSync_utf8 :: "world \<Rightarrow> string \<Rightarrow> error + string" where
  "readFileSync_utf8 w s =
     (case readFileSync w s of Inl e \<Rightarrow> Inl e | Inr bytes \<Rightarrow> Inr (toString_utf8 bytes))"

text \<open>\<^verbatim>\<open>fs.mkdirSync(s, { recursive: true })\<close>: every missing directory of the path is made.\<close>

fun mkdirp :: "filesystem \<Rightarrow> path \<Rightarrow> string list \<Rightarrow> (errno + unit) \<times> filesystem" where
  "mkdirp fs cur [] = (Inr (), fs)"
| "mkdirp fs cur (c # rest) =
     (if c = ''.'' then mkdirp fs cur rest
      else if c = ''..'' then mkdirp fs (butlast cur) rest
      else (case lookup fs (cur @ [c]) of
          None \<Rightarrow> mkdirp (AList.update (cur @ [c]) Dir fs) (cur @ [c]) rest
        | Some Dir \<Rightarrow> mkdirp fs (cur @ [c]) rest
        | Some (File x) \<Rightarrow> (Inl (if rest = [] then EEXIST else ENOTDIR), fs)
        | Some (Symlink t) \<Rightarrow>
            (case walk MAXSYMLINKS fs False cur [c] of
               Inl e \<Rightarrow> (Inl e, fs)
             | Inr d \<Rightarrow> (case lookup fs d of
                           Some Dir \<Rightarrow> mkdirp fs d rest
                         | _ \<Rightarrow> (Inl (if rest = [] then EEXIST else ENOTDIR), fs)))))"

definition mkdirSync_recursive :: "world \<Rightarrow> string \<Rightarrow> (error + unit) \<times> world" where
  "mkdirSync_recursive w s =
     (case mkdirp (files w) [] (kpath w s) of
        (Inl e, fs) \<Rightarrow> (Inl (SystemError e), w\<lparr>files := fs\<rparr>)
      | (Inr u, fs) \<Rightarrow> (Inr (), w\<lparr>files := fs\<rparr>))"

text \<open>\<^verbatim>\<open>fs.mkdirSync(s)\<close>, used by the recursive copy for a directory that is not there.\<close>

definition mkdirSync :: "world \<Rightarrow> string \<Rightarrow> (error + unit) \<times> world" where
  "mkdirSync w s =
     (case locate w s of
        Inl e \<Rightarrow> (Inl (SystemError e), w)
      | Inr p \<Rightarrow> (case lookup (files w) p of
                    None \<Rightarrow> (Inr (), w\<lparr>files := AList.update p Dir (files w)\<rparr>)
                  | Some n \<Rightarrow> (Inl (SystemError EEXIST), w)))"

text \<open>\<^verbatim>\<open>fs.writeFileSync(s, content, 'utf-8')\<close>: the file is made or replaced.\<close>

definition writeFileSync :: "world \<Rightarrow> string \<Rightarrow> string \<Rightarrow> (error + unit) \<times> world" where
  "writeFileSync w s content =
     (case walk MAXSYMLINKS (files w) True [] (kpath w s) of
        Inl e \<Rightarrow> (Inl (SystemError e), w)
      | Inr p \<Rightarrow> (case lookup (files w) p of
                    Some Dir \<Rightarrow> (Inl (SystemError EISDIR), w)
                  | _ \<Rightarrow> (Inr (), w\<lparr>files := AList.update p (File content) (files w)\<rparr>)))"

text \<open>
  \<^verbatim>\<open>fs.rmSync(s, { recursive: true, force: true })\<close>: a path that does not exist is not an
  error. The root cannot be removed: what is below it is, and the call fails.
\<close>

definition rmSync :: "world \<Rightarrow> string \<Rightarrow> (error + unit) \<times> world" where
  "rmSync w s =
     (case locate w s of
        Inl e \<Rightarrow> if e = ENOENT then (Inr (), w) else (Inl (SystemError e), w)
      | Inr p \<Rightarrow> if p = [] then (Inl (SystemError EBUSY), w\<lparr>files := []\<rparr>)
                else (Inr (), w\<lparr>files := remove_tree (files w) p\<rparr>))"

definition rmdirSync :: "world \<Rightarrow> string \<Rightarrow> (error + unit) \<times> world" where
  "rmdirSync w s =
     (case locate w s of
        Inl e \<Rightarrow> (Inl (SystemError e), w)
      | Inr p \<Rightarrow>
          if p = [] then (Inl (SystemError EBUSY), w)
          else (case lookup (files w) p of
                  None \<Rightarrow> (Inl (SystemError ENOENT), w)
                | Some Dir \<Rightarrow>
                    if children (files w) p = []
                    then (Inr (), w\<lparr>files := AList.delete p (files w)\<rparr>)
                    else (Inl (SystemError ENOTEMPTY), w)
                | Some n \<Rightarrow> (Inl (SystemError ENOTDIR), w)))"

definition unlinkSync :: "world \<Rightarrow> string \<Rightarrow> (error + unit) \<times> world" where
  "unlinkSync w s =
     (case lstat w s of
        Inl e \<Rightarrow> (Inl (SystemError e), w)
      | Inr (p, n) \<Rightarrow> if n = Dir then (Inl (SystemError EISDIR), w)
                     else (Inr (), w\<lparr>files := AList.delete p (files w)\<rparr>))"

definition symlinkSync :: "world \<Rightarrow> string \<Rightarrow> string \<Rightarrow> (error + unit) \<times> world" where
  "symlinkSync w target s =
     (case locate w s of
        Inl e \<Rightarrow> (Inl (SystemError e), w)
      | Inr p \<Rightarrow> (case lookup (files w) p of
                    None \<Rightarrow> (Inr (), w\<lparr>files := AList.update p (Symlink target) (files w)\<rparr>)
                  | Some n \<Rightarrow> (Inl (SystemError EEXIST), w)))"

text \<open>
  \<^verbatim>\<open>fs.cpSync(src, dest, { recursive: true })\<close> with the other options at their defaults: a
  symbolic link is copied as a link to the resolved target, an existing file is replaced,
  an existing directory is merged into, a directory never replaces a file nor a file a
  directory, and nothing is copied into itself. The only caller makes the parent of
  \<open>dest\<close> first, so the copy does not. The first argument bounds the depth of the
  recursion; the bound used is more than the number of nodes of the file system.
\<close>

definition isSrcSubdir :: "string \<Rightarrow> string \<Rightarrow> string \<Rightarrow> bool" where
  "isSrcSubdir wd src dest =
     prefix (segments (path_resolve wd [src])) (segments (path_resolve wd [dest]))"

definition lstat_dest :: "world \<Rightarrow> string \<Rightarrow> errno + (path \<times> node) option" where
  "lstat_dest w s =
     (case lstat w s of
        Inl e \<Rightarrow> if e = ENOENT then Inr None else Inl e
      | Inr x \<Rightarrow> Inr (Some x))"

definition checkPaths :: "world \<Rightarrow> string \<Rightarrow> string \<Rightarrow> path \<times> node \<Rightarrow> (path \<times> node) option \<Rightarrow> errno option" where
  "checkPaths w src dest srcStat destStat =
     (case destStat of
        Some (dp, dn) \<Rightarrow>
          if dp = fst srcStat then Some ERR_FS_CP_EINVAL
          else if snd srcStat = Dir \<and> dn \<noteq> Dir then Some ERR_FS_CP_DIR_TO_NON_DIR
          else if snd srcStat \<noteq> Dir \<and> dn = Dir then Some ERR_FS_CP_NON_DIR_TO_DIR
          else if snd srcStat = Dir \<and> isSrcSubdir (cwd w) src dest then Some ERR_FS_CP_EINVAL
          else None
      | None \<Rightarrow>
          if snd srcStat = Dir \<and> isSrcSubdir (cwd w) src dest then Some ERR_FS_CP_EINVAL
          else None)"

fun cp_item :: "nat \<Rightarrow> world \<Rightarrow> string \<Rightarrow> string \<Rightarrow> (error + unit) \<times> world" where
  "cp_item 0 w src dest = (Inl (SystemError ELOOP), w)"
| "cp_item (Suc n) w src dest =
     (case lstat w src of
        Inl e \<Rightarrow> (Inl (SystemError e), w)
      | Inr srcStat \<Rightarrow>
     (case lstat_dest w dest of
        Inl e \<Rightarrow> (Inl (SystemError e), w)
      | Inr destStat \<Rightarrow>
     (case checkPaths w src dest srcStat destStat of
        Some e \<Rightarrow> (Inl (SystemError e), w)
      | None \<Rightarrow>
     (case snd srcStat of
        File c \<Rightarrow>
          (case (if destStat = None then (Inr (), w) else unlinkSync w dest) of
             (Inl e, w1) \<Rightarrow> (Inl e, w1)
           | (Inr u, w1) \<Rightarrow> writeFileSync w1 dest c)
      | Dir \<Rightarrow>
          (case (if destStat = None then mkdirSync w dest else (Inr (), w)) of
             (Inl e, w1) \<Rightarrow> (Inl e, w1)
           | (Inr u, w1) \<Rightarrow>
               (case readdirSync w1 src of
                  Inl e \<Rightarrow> (Inl e, w1)
                | Inr names \<Rightarrow>
                    fold (\<lambda>name r.
                            case r of
                              (Inl e, w2) \<Rightarrow> (Inl e, w2)
                            | (Inr u, w2) \<Rightarrow>
                                cp_item n w2 (path_join [src, name]) (path_join [dest, name]))
                         names (Inr (), w1)))
      | Symlink t \<Rightarrow>
          (let resolvedSrc =
                 (if isAbsolute t then t else path_resolve (cwd w) [path_dirname src, t])
           in case (case destStat of
                      Some (dp, Symlink t') \<Rightarrow> unlinkSync w dest
                    | _ \<Rightarrow> (Inr (), w)) of
                (Inl e, w1) \<Rightarrow> (Inl e, w1)
              | (Inr u, w1) \<Rightarrow> symlinkSync w1 resolvedSrc dest)))))"

definition tree_fuel :: "world \<Rightarrow> nat" where
  "tree_fuel w = Suc (length (files w)) + MAXSYMLINKS"

definition cpSync_recursive :: "world \<Rightarrow> string \<Rightarrow> string \<Rightarrow> (error + unit) \<times> world" where
  "cpSync_recursive w src dest = cp_item (tree_fuel w) w src dest"

section \<open>The helpers of the plugin handlers\<close>

definition emit :: "world \<Rightarrow> string \<Rightarrow> string \<Rightarrow> world" where
  "emit w channel msg = w\<lparr>emitted := emitted w @ [(channel, msg)]\<rparr>"

definition project_call :: "world \<Rightarrow> project_call \<Rightarrow> world" where
  "project_call w c = w\<lparr>calls := calls w @ [c]\<rparr>"

definition generateAttributeError :: "string \<Rightarrow> string \<Rightarrow> string \<Rightarrow> string" where
  \<open>generateAttributeError attribute element ident =
     ''Required attribute "'' @ attribute @ ''" not specified in <'' @ element
       @ ''> element from plugin: '' @ ident\<close>

subsection \<open>Copying\<close>

text \<open>
  \<open>symlinkFileOrDirTree\<close> calls itself on every entry of a directory; the first argument
  bounds the depth of that recursion, as for the recursive copy.
\<close>

fun symlinkFileOrDirTree :: "nat \<Rightarrow> world \<Rightarrow> string \<Rightarrow> string \<Rightarrow> (error + unit) \<times> world" where
  "symlinkFileOrDirTree 0 w src dest = (Inl (SystemError ELOOP), w)"
| "symlinkFileOrDirTree (Suc n) w src dest =
     (case (if existsSync w dest then rmSync w dest else (Inr (), w)) of
        (Inl e, w1) \<Rightarrow> (Inl e, w1)
      | (Inr u, w1) \<Rightarrow>
     (case statSync_isDirectory w1 src of
        Inl e \<Rightarrow> (Inl e, w1)
      | Inr isDir \<Rightarrow>
          if isDir then
            (case mkdirSync_recursive w1 (path_dirname dest) of
               (Inl e, w2) \<Rightarrow> (Inl e, w2)
             | (Inr u, w2) \<Rightarrow>
                 (case readdirSync w2 src of
                    Inl e \<Rightarrow> (Inl e, w2)
                  | Inr entries \<Rightarrow>
                      fold (\<lambda>entry r.
                              case r of
                                (Inl e, w3) \<Rightarrow> (Inl e, w3)
                              | (Inr u, w3) \<Rightarrow>
                                  symlinkFileOrDirTree n w3 (path_join [src, entry])
                                    (path_join [dest, entry]))
                           entries (Inr (), w2)))
          else
            (case realpathSync w1 (path_dirname dest) of
               Inl e \<Rightarrow> (Inl e, w1)
             | Inr real \<Rightarrow> symlinkSync w1 (path_relative (cwd w1) real src) dest)))"

definition copyFile ::
  "world \<Rightarrow> string \<Rightarrow> string option \<Rightarrow> string \<Rightarrow> string \<Rightarrow> bool \<Rightarrow> (error + unit) \<times> world" where
  \<open>copyFile w plugin_dir src0 project_dir dest0 link =
     (case validateString src0 of
        Inl e \<Rightarrow> (Inl e, w)
      | Inr src1 \<Rightarrow>
     (let src = path_resolve (cwd w) [plugin_dir, src1] in
      if \<not> existsSync w src then (Inl (CordovaError (''"'' @ src @ ''" not found!'')), w)
      else
     (case realpathSync w src of
        Inl e \<Rightarrow> (Inl e, w)
      | Inr real_path \<Rightarrow>
     (case realpathSync w plugin_dir of
        Inl e \<Rightarrow> (Inl e, w)
      | Inr real_plugin_path \<Rightarrow>
      if \<not> isPathInside (cwd w) real_path real_plugin_path
      then (Inl (CordovaError (''File "'' @ src @ ''" is located outside the plugin directory "''
                                 @ plugin_dir @ ''"'')), w)
      else
     (let dest = path_resolve (cwd w) [project_dir, dest0] in
      if \<not> isPathInside (cwd w) dest project_dir
      then (Inl (CordovaError (''Destination "'' @ dest @ ''" for source file "'' @ src
                                 @ ''" is located outside the project'')), w)
      else
     (case mkdirSync_recursive w (path_dirname dest) of
        (Inl e, w1) \<Rightarrow> (Inl e, w1)
      | (Inr u, w1) \<Rightarrow>
          if link then symlinkFileOrDirTree (tree_fuel w1) w1 src dest
          else cpSync_recursive w1 src dest))))))\<close>

text \<open>Same as \<open>copyFile\<close> but throws an error if the target exists.\<close>

definition copyNewFile ::
  "world \<Rightarrow> string \<Rightarrow> string option \<Rightarrow> string \<Rightarrow> string \<Rightarrow> bool \<Rightarrow> (error + unit) \<times> world" where
  \<open>copyNewFile w plugin_dir src0 project_dir dest link =
     (let target_path = path_resolve (cwd w) [project_dir, dest] in
      if existsSync w target_path
      then (Inl (CordovaError (''"'' @ target_path @ ''" already exists!'')), w)
      else copyFile w plugin_dir src0 project_dir dest link)\<close>

subsection \<open>Removing\<close>

definition removeFileF :: "world \<Rightarrow> string \<Rightarrow> (error + unit) \<times> world" where
  "removeFileF w file = rmSync w file"

text \<open>
  The loop of \<open>removeFileAndParents\<close>. It goes round again only after \<^verbatim>\<open>rmdirSync\<close> has
  removed a directory, so the file system gets smaller at every turn.
\<close>

function prune_loop :: "world \<Rightarrow> string \<Rightarrow> string \<Rightarrow> (error + unit) \<times> world" where
  "prune_loop w curDir stop =
     (if curDir = stop then (Inr (), w)
      else if existsSync w curDir then
        (case readdirSync w curDir of
           Inl e \<Rightarrow> (Inl e, w)
         | Inr entries \<Rightarrow>
             if length entries = 0 then
               (case rmdirSync w curDir of
                  (Inl e, w1) \<Rightarrow> (Inl e, w1)
                | (Inr u, w1) \<Rightarrow> prune_loop w1 (path_resolve (cwd w1) [curDir, ''..'']) stop)
             else (Inr (), w))
      else (Inr (), w))"
  by pat_completeness auto
termination
proof (relation "measure (\<lambda>(w, curDir, stop). length (files w))")
  show "wf (measure (\<lambda>(w, curDir, stop). length (files w)))"
    by simp
next
  fix w :: world and curDir stop :: string and x2 x y x2a :: "string list" and w1 :: world
    and xa :: "error + unit" and u :: unit
  assume r: "(xa, w1) = rmdirSync w curDir" and ok: "xa = Inr u"
  have "length (files w1) < length (files w)"
  proof -
    obtain p where p: "p \<noteq> []" "lookup (files w) p = Some Dir"
        "files w1 = AList.delete p (files w)"
      using r ok
      by (auto simp: rmdirSync_def split: sum.splits if_splits option.splits node.splits)
    from p(1,2) have "map_of (files w) p = Some Dir"
      by (simp add: lookup_def)
    then have "(p, Dir) \<in> set (files w)"
      by (rule map_of_SomeD)
    then have "length (filter (\<lambda>(k, v). p \<noteq> k) (files w)) < length (files w)"
      by (intro length_filter_less[where x = "(p, Dir)"]) auto
    then show ?thesis
      using p(3) by (simp add: AList.delete_eq)
  qed
  then show "((w1, path_resolve (cwd w1) [curDir, ''..''], stop), (w, curDir, stop))
               \<in> measure (\<lambda>(w, curDir, stop). length (files w))"
    by simp
qed

definition removeFileAndParents ::
  "world \<Rightarrow> string \<Rightarrow> string \<Rightarrow> string option \<Rightarrow> (error + unit) \<times> world" where
  "removeFileAndParents w baseDir destFile stopper0 =
     (let stopper = (if falsy stopper0 then ''.'' else the stopper0);
          file = path_resolve (cwd w) [baseDir, destFile]
      in if \<not> existsSync w file then (Inr (), w)
         else (case removeFileF w file of
                 (Inl e, w1) \<Rightarrow> (Inl e, w1)
               | (Inr u, w1) \<Rightarrow>
                   prune_loop w1 (path_dirname file) (path_resolve (cwd w1) [baseDir, stopper])))"

text \<open>Sometimes we want to remove some java, and prune any unnecessary empty directories.\<close>

definition deleteJava :: "world \<Rightarrow> string \<Rightarrow> string \<Rightarrow> (error + unit) \<times> world" where
  "deleteJava w project_dir destFile = removeFileAndParents w project_dir destFile (Some ''src'')"

section \<open>The plugin handlers\<close>

record directive =
  src :: "string option"
  target :: "string option"
  targetDir :: "string option"
  name :: "string option"
  parent :: "string option"
  custom :: bool
  type :: "string option"

record plugin =
  plugin_id :: string
  dir :: string

text \<open>
  The project handle. \<open>getCustomSubprojectRelativeDir\<close> belongs to the project class,
  which is outside this module: it is a field of the handle. The six linkage operations
  are recorded in the world as calls.
\<close>

record project =
  projectDir :: string
  www :: string
  platformWww :: string
  getCustomSubprojectRelativeDir :: "string \<Rightarrow> string \<Rightarrow> string"

record options =
  force :: bool
  link :: bool
  usePlatformWww :: bool

text \<open>\<^verbatim>\<open>options && options.f\<close>, for an options object that may be \<^verbatim>\<open>undefined\<close>.\<close>

definition opt :: "(options \<Rightarrow> bool) \<Rightarrow> options option \<Rightarrow> bool" where
  "opt f os = (case os of None \<Rightarrow> False | Some x \<Rightarrow> f x)"


subsection \<open>The destination of a source file\<close>

text \<open>
  The regular expressions of \<open>getInstallDestination\<close> are \<^verbatim>\<open>^app(\/|$)\<close>, \<^verbatim>\<open>^libs(\/|$)\<close>,
  \<^verbatim>\<open>^src(\/|$)\<close> and \<^verbatim>\<open>^src\/main(\/|$)\<close>: the string is the word, or starts with the word and a
  separator. \<open>reg_test\<close> is \<^verbatim>\<open>RegExp.test\<close> for such an expression and \<open>reg_replace\<close> is
  \<^verbatim>\<open>String.replace\<close> of its match by the empty string.
\<close>

definition reg_test :: "string \<Rightarrow> string \<Rightarrow> bool" where
  "reg_test word s = (s = word \<or> prefix (word @ ''/'') s)"

definition reg_replace :: "string \<Rightarrow> string \<Rightarrow> string" where
  "reg_replace word s =
     (if prefix (word @ ''/'') s then drop (length word + 1) s
      else if s = word then []
      else s)"

definition path_join_js :: "string option list \<Rightarrow> error + string" where
  "path_join_js args =
     (case validateStrings args of Inl e \<Rightarrow> Inl e | Inr ss \<Rightarrow> Inr (path_join ss))"

definition getInstallDestination :: "directive \<Rightarrow> error + string" where
  "getInstallDestination obj =
     (let APP_MAIN_PREFIX = ''app/src/main'' in
      if reg_test ''app'' (ToString (targetDir obj)) then
        (case validateString (src obj) of
           Inl e \<Rightarrow> Inl e
         | Inr s \<Rightarrow> path_join_js [targetDir obj, Some (path_basename s)])
      else
        (case src obj of
           None \<Rightarrow> Inl (TypeError ''Cannot read properties of undefined (reading endsWith)'')
         | Some s \<Rightarrow>
             if endsWith s ''.java'' then
               (case targetDir obj of
                  None \<Rightarrow> Inl (TypeError ''Cannot read properties of undefined (reading replace)'')
                | Some td \<Rightarrow>
                    Inr (path_join [APP_MAIN_PREFIX, ''java'', reg_replace ''src'' td,
                                    path_basename s]))
             else if endsWith s ''.aidl'' then
               (case targetDir obj of
                  None \<Rightarrow> Inl (TypeError ''Cannot read properties of undefined (reading replace)'')
                | Some td \<Rightarrow>
                    Inr (path_join [APP_MAIN_PREFIX, ''aidl'', reg_replace ''src'' td,
                                    path_basename s]))
             else if reg_test ''libs'' (ToString (targetDir obj)) then
               (if endsWith s ''.so'' then
                  (case targetDir obj of
                     None \<Rightarrow> Inl (TypeError ''Cannot read properties of undefined (reading replace)'')
                   | Some td \<Rightarrow>
                       Inr (path_join [APP_MAIN_PREFIX, ''jniLibs'', reg_replace ''libs'' td,
                                       path_basename s]))
                else path_join_js [Some ''app'', targetDir obj, Some (path_basename s)])
             else if reg_test ''src/main'' (ToString (targetDir obj)) then
               path_join_js [Some ''app'', targetDir obj, Some (path_basename s)]
             else path_join_js [Some APP_MAIN_PREFIX, targetDir obj, Some (path_basename s)]))"

subsection \<open>The handlers\<close>

text \<open>
  A handler takes the directive, the plugin, the project and the options, which may be
  \<^verbatim>\<open>undefined\<close>. The framework handlers assign \<^verbatim>\<open>obj.type\<close>, so a handler that returns
  gives back the directive as it has left it.
\<close>

type_synonym handler_fn =
  "directive \<Rightarrow> plugin \<Rightarrow> project \<Rightarrow> options option \<Rightarrow> world \<Rightarrow> (error + directive) \<times> world"

definition returning :: "directive \<Rightarrow> (error + unit) \<times> world \<Rightarrow> (error + directive) \<times> world" where
  "returning obj r = (case r of (Inl e, w) \<Rightarrow> (Inl e, w) | (Inr u, w) \<Rightarrow> (Inr obj, w))"

definition source_file_install :: handler_fn where
  "source_file_install obj plugin project options w =
     (if falsy (src obj)
      then (Inl (CordovaError (generateAttributeError ''src'' ''source-file'' (plugin_id plugin))), w)
      else if falsy (targetDir obj)
      then (Inl (CordovaError (generateAttributeError ''target-dir'' ''source-file'' (plugin_id plugin))), w)
      else (case getInstallDestination obj of
              Inl e \<Rightarrow> (Inl e, w)
            | Inr dest \<Rightarrow>
                returning obj
                  (if opt force options
                   then copyFile w (dir plugin) (src obj) (projectDir project) dest (opt link options)
                   else copyNewFile w (dir plugin) (src obj) (projectDir project) dest
                          (opt link options))))"

definition source_file_uninstall :: handler_fn where
  "source_file_uninstall obj plugin project options w =
     (case getInstallDestination obj of
        Inl e \<Rightarrow> (Inl e, w)
      | Inr dest \<Rightarrow>
          (case src obj of
             None \<Rightarrow> (Inl (TypeError ''Cannot read properties of undefined (reading endsWith)''), w)
           | Some s \<Rightarrow>
               returning obj
                 (if endsWith s ''java'' then deleteJava w (projectDir project) dest
                  else removeFileF w (path_resolve (cwd w) [projectDir project, dest]))))"

definition lib_file_install :: handler_fn where
  "lib_file_install obj plugin project options w =
     (case validateString (src obj) of
        Inl e \<Rightarrow> (Inl e, w)
      | Inr s \<Rightarrow>
          (let dest = path_join [''app/libs'', path_basename s]
           in returning obj
                (copyFile w (dir plugin) (src obj) (projectDir project) dest (opt link options))))"

definition lib_file_uninstall :: handler_fn where
  "lib_file_uninstall obj plugin project options w =
     (case validateString (src obj) of
        Inl e \<Rightarrow> (Inl e, w)
      | Inr s \<Rightarrow>
          (let dest = path_join [''app/libs'', path_basename s]
           in returning obj (removeFileF w (path_resolve (cwd w) [projectDir project, dest]))))"

definition resource_file_install :: handler_fn where
  "resource_file_install obj plugin project options w =
     (case path_join_js [Some ''app'', Some ''src'', Some ''main'', target obj] of
        Inl e \<Rightarrow> (Inl e, w)
      | Inr dest \<Rightarrow>
          returning obj
            (copyFile w (dir plugin) (src obj) (projectDir project) dest (opt link options)))"

definition resource_file_uninstall :: handler_fn where
  "resource_file_uninstall obj plugin project options w =
     (case path_join_js [Some ''app'', Some ''src'', Some ''main'', target obj] of
        Inl e \<Rightarrow> (Inl e, w)
      | Inr dest \<Rightarrow>
          returning obj (removeFileF w (path_resolve (cwd w) [projectDir project, dest])))"

definition framework_parentDir :: "directive \<Rightarrow> project \<Rightarrow> world \<Rightarrow> string" where
  "framework_parentDir obj project w =
     (if falsy (parent obj) then projectDir project
      else path_resolve (cwd w) [projectDir project, the (parent obj)])"

definition framework_install :: handler_fn where
  "framework_install obj plugin project options w =
     (if falsy (src obj)
      then (Inl (CordovaError (generateAttributeError ''src'' ''framework'' (plugin_id plugin))), w)
      else
        (let s = the (src obj);
             w1 = emit w ''verbose'' (''Installing Android library: '' @ s);
             parentDir = framework_parentDir obj project w1
         in if custom obj then
              (let subRelativeDir = getCustomSubprojectRelativeDir project (plugin_id plugin) s
               in case copyNewFile w1 (dir plugin) (src obj) (projectDir project) subRelativeDir
                         (opt link options) of
                    (Inl e, w2) \<Rightarrow> (Inl e, w2)
                  | (Inr u, w2) \<Rightarrow>
                      (let subDir = path_resolve (cwd w2) [projectDir project, subRelativeDir]
                       in (Inr obj,
                           project_call w2
                             (if type obj = Some ''gradleReference''
                              then AddGradleReference parentDir subDir
                              else if type obj = Some ''sys''
                              then AddSystemLibrary parentDir subDir
                              else AddSubProject parentDir subDir))))
            else (Inr (obj\<lparr>type := Some ''sys''\<rparr>),
                  project_call w1 (AddSystemLibrary parentDir s))))"

definition framework_uninstall :: handler_fn where
  "framework_uninstall obj plugin project options w =
     (if falsy (src obj)
      then (Inl (CordovaError (generateAttributeError ''src'' ''framework'' (plugin_id plugin))), w)
      else
        (let s = the (src obj);
             w1 = emit w ''verbose'' (''Uninstalling Android library: '' @ s);
             parentDir = framework_parentDir obj project w1
         in if custom obj then
              (let subRelativeDir = getCustomSubprojectRelativeDir project (plugin_id plugin) s;
                   subDir = path_resolve (cwd w1) [projectDir project, subRelativeDir];
                   parDir = path_dirname subDir
               in case removeFileF w1 subDir of
                    (Inl e, w2) \<Rightarrow> (Inl e, w2)
                  | (Inr u, w2) \<Rightarrow>
                      (case (if existsSync w2 parDir then
                               (case readdirSync w2 parDir of
                                  Inl e \<Rightarrow> (Inl e, w2)
                                | Inr entries \<Rightarrow>
                                    if length entries = 0 then rmdirSync w2 parDir
                                    else (Inr (), w2))
                             else (Inr (), w2)) of
                         (Inl e, w3) \<Rightarrow> (Inl e, w3)
                       | (Inr u, w3) \<Rightarrow>
                           (Inr obj,
                            project_call w3
                              (if type obj = Some ''gradleReference''
                               then RemoveGradleReference parentDir subDir
                               else if type obj = Some ''sys''
                               then RemoveSystemLibrary parentDir subDir
                               else RemoveSubProject parentDir subDir))))
            else (Inr (obj\<lparr>type := Some ''sys''\<rparr>),
                  project_call w1 (RemoveSystemLibrary parentDir s))))"

definition asset_install :: handler_fn where
  "asset_install obj plugin project options w =
     (if falsy (src obj)
      then (Inl (CordovaError (generateAttributeError ''src'' ''asset'' (plugin_id plugin))), w)
      else if falsy (target obj)
      then (Inl (CordovaError (generateAttributeError ''target'' ''asset'' (plugin_id plugin))), w)
      else (case copyFile w (dir plugin) (src obj) (www project) (the (target obj)) False of
              (Inl e, w1) \<Rightarrow> (Inl e, w1)
            | (Inr u, w1) \<Rightarrow>
                if opt usePlatformWww options
                then returning obj
                       (copyFile w1 (dir plugin) (src obj) (platformWww project)
                          (the (target obj)) False)
                else (Inr obj, w1)))"

definition asset_uninstall :: handler_fn where
  "asset_uninstall obj plugin project options w =
     (let target' = (if falsy (target obj) then src obj else target obj)
      in if falsy target'
         then (Inl (CordovaError (generateAttributeError ''target'' ''asset'' (plugin_id plugin))), w)
         else (case removeFileAndParents w (www project) (the target') None of
                 (Inl e, w1) \<Rightarrow> (Inl e, w1)
               | (Inr u, w1) \<Rightarrow>
                   if opt usePlatformWww options
                   then returning obj
                          (removeFileAndParents w1 (platformWww project) (the target') None)
                   else (Inr obj, w1)))"

text \<open>
  The content is read as UTF-8 and written as UTF-8. The byte order mark \<^verbatim>\<open>U+FEFF\<close> that
  \<^verbatim>\<open>replace(/^\ufeff/, '')\<close> removes from the start of the decoded content is held as the
  three bytes \<^verbatim>\<open>EF BB BF\<close>. The expression \<^verbatim>\<open>/.*\.json$/\<close> matches the strings that end with
  \<^verbatim>\<open>.json\<close>.
\<close>

definition BOM :: string where
  "BOM = [CHR 0xEF, CHR 0xBB, CHR 0xBF]"

definition strip_bom :: "string \<Rightarrow> string" where
  "strip_bom content = (if prefix BOM content then drop (length BOM) content else content)"

definition js_module_install :: handler_fn where
  \<open>js_module_install obj plugin project options w =
     (case validateString (src obj) of
        Inl e \<Rightarrow> (Inl e, w)
      | Inr s \<Rightarrow>
     (let moduleSource = path_resolve (cwd w) [dir plugin, s];
          moduleName = plugin_id plugin @ ''.''
            @ (if falsy (name obj) then path_basename_ext s (path_extname s) else the (name obj))
      in case readFileSync_utf8 w moduleSource of
           Inl e \<Rightarrow> (Inl e, w)
         | Inr content \<Rightarrow>
     (let scriptContent0 = strip_bom content;
          scriptContent1 = (if endsWith moduleSource ''.json''
                            then ''module.exports = '' @ scriptContent0 else scriptContent0);
          scriptContent = ''cordova.define("'' @ moduleName
            @ ''", function(require, exports, module) {\<newline>'' @ scriptContent1 @ ''\<newline>});\<newline>'';
          wwwDest = path_resolve (cwd w) [www project, ''plugins'', plugin_id plugin, s]
      in case mkdirSync_recursive w (path_dirname wwwDest) of
           (Inl e, w1) \<Rightarrow> (Inl e, w1)
         | (Inr u, w1) \<Rightarrow>
     (case writeFileSync w1 wwwDest scriptContent of
        (Inl e, w2) \<Rightarrow> (Inl e, w2)
      | (Inr u, w2) \<Rightarrow>
          if opt usePlatformWww options then
            (let platformWwwDest =
                   path_resolve (cwd w2) [platformWww project, ''plugins'', plugin_id plugin, s]
             in case mkdirSync_recursive w2 (path_dirname platformWwwDest) of
                  (Inl e, w3) \<Rightarrow> (Inl e, w3)
                | (Inr u, w3) \<Rightarrow> returning obj (writeFileSync w3 platformWwwDest scriptContent))
          else (Inr obj, w2)))))\<close>

definition js_module_uninstall :: handler_fn where
  "js_module_uninstall obj plugin project options w =
     (case path_join_js [Some ''plugins'', Some (plugin_id plugin), src obj] of
        Inl e \<Rightarrow> (Inl e, w)
      | Inr pluginRelativePath \<Rightarrow>
          (case removeFileAndParents w (www project) pluginRelativePath None of
             (Inl e, w1) \<Rightarrow> (Inl e, w1)
           | (Inr u, w1) \<Rightarrow>
               if opt usePlatformWww options
               then returning obj
                      (removeFileAndParents w1 (platformWww project) pluginRelativePath None)
               else (Inr obj, w1)))"

record handler =
  install :: handler_fn
  uninstall :: handler_fn

definition handlers :: "string \<Rightarrow> handler option" where
  "handlers t =
     (if t = ''source-file''
      then Some \<lparr>install = source_file_install, uninstall = source_file_uninstall\<rparr>
      else if t = ''lib-file''
      then Some \<lparr>install = lib_file_install, uninstall = lib_file_uninstall\<rparr>
      else if t = ''resource-file''
      then Some \<lparr>install = resource_file_install, uninstall = resource_file_uninstall\<rparr>
      else if t = ''framework''
      then Some \<lparr>install = framework_install, uninstall = framework_uninstall\<rparr>
      else if t = ''asset''
      then Some \<lparr>install = asset_install, uninstall = asset_uninstall\<rparr>
      else if t = ''js-module''
      then Some \<lparr>install = js_module_install, uninstall = js_module_uninstall\<rparr>
      else None)"

definition getInstaller :: "world \<Rightarrow> string \<Rightarrow> handler_fn option \<times> world" where
  "getInstaller w t =
     (case handlers t of
        Some h \<Rightarrow> (Some (install h), w)
      | None \<Rightarrow> (None, emit w ''verbose'' (''<'' @ t @ ''> is not supported for android plugins'')))"

definition getUninstaller :: "world \<Rightarrow> string \<Rightarrow> handler_fn option \<times> world" where
  "getUninstaller w t =
     (case handlers t of
        Some h \<Rightarrow> (Some (uninstall h), w)
      | None \<Rightarrow> (None, emit w ''verbose'' (''<'' @ t @ ''> is not supported for android plugins'')))"

declare prune_loop.simps [simp del]

section \<open>Notions used in the statements\<close>

text \<open>
  A list of path segments is plain when every segment is a name: not empty, not \<^verbatim>\<open>.\<close>,
  not \<^verbatim>\<open>..\<close>, and without a separator.
\<close>

definition nosep :: "string list \<Rightarrow> bool" where
  "nosep cs = (\<forall>c \<in> set cs. CHR ''/'' \<notin> set c)"

definition plain :: "string list \<Rightarrow> bool" where
  "plain cs = (\<forall>c \<in> set cs. c \<noteq> [] \<and> c \<noteq> ''.'' \<and> c \<noteq> ''..'' \<and> CHR ''/'' \<notin> set c)"

text \<open>
  A world in which the plugin directory holds a symbolic link that leaves it:
  \<^verbatim>\<open>/plugin/evil\<close> points to \<^verbatim>\<open>/etc/passwd\<close>.
\<close>

definition symlink_world :: world where
  "symlink_world =
     \<lparr>files = [([''plugin''], Dir), ([''plugin'', ''evil''], Symlink ''/etc/passwd''),
               ([''etc''], Dir), ([''etc'', ''passwd''], File ''root''), ([''proj''], Dir)],
      cwd = ''/proj'', emitted = [], calls = []\<rparr>"

text \<open>
  A project with a web root and a platform web root, a plugin with a library, two JSON
  modules and an image, and a custom framework that is already in the project. The JSON
  module \<^verbatim>\<open>foo.json\<close> starts with a byte order mark, and its string holds the byte \<^verbatim>\<open>E9\<close>,
  which is not UTF-8 (a Latin-1 letter), before the two bytes \<^verbatim>\<open>C3 A9\<close> of the same letter
  in UTF-8. The module \<^verbatim>\<open>bar.json\<close> is well-formed UTF-8.
\<close>

definition sample_world :: world where
  \<open>sample_world =
     \<lparr>files = [([''plugin''], Dir), ([''plugin'', ''lib''], Dir),
               ([''plugin'', ''lib'', ''build.gradle''], File ''apply plugin''),
               ([''plugin'', ''www''], Dir),
               ([''plugin'', ''www'', ''foo.json''],
                File ([CHR 0xEF, CHR 0xBB, CHR 0xBF] @ ''{"a": "'' @ [CHR 0xE9, CHR 0xC3, CHR 0xA9] @ ''"}'')),
               ([''plugin'', ''www'', ''bar.json''],
                File (''{"b": "'' @ [CHR 0xC3, CHR 0xA9] @ ''"}'')),
               ([''plugin'', ''www'', ''logo.png''], File ''PNG''),
               ([''proj''], Dir), ([''proj'', ''org.x''], Dir),
               ([''proj'', ''org.x'', ''app-lib''], Dir),
               ([''proj'', ''www''], Dir), ([''proj'', ''www'', ''index.html''], File ''<html>''),
               ([''proj'', ''platform_www''], Dir)],
      cwd = ''/proj'', emitted = [], calls = []\<rparr>\<close>

definition sample_plugin :: plugin where
  "sample_plugin = \<lparr>plugin_id = ''org.x'', dir = ''/plugin''\<rparr>"

definition sample_project :: project where
  "sample_project =
     \<lparr>projectDir = ''/proj'', www = ''/proj/www'', platformWww = ''/proj/platform_www'',
      getCustomSubprojectRelativeDir =
        (\<lambda>plugin_id s. path_join [plugin_id, ''app-'' @ path_basename s])\<rparr>"

definition framework_directive :: directive where
  "framework_directive =
     \<lparr>src = Some ''lib'', target = None, targetDir = None, name = None, parent = None,
      custom = True, type = None\<rparr>"

text \<open>
  A source file of the sample plugin whose destination is already in the project.
\<close>

definition forced_directive :: directive where
  "forced_directive =
     \<lparr>src = Some ''lib/build.gradle'', target = None, targetDir = Some ''app/x'', name = None,
      parent = None, custom = False, type = None\<rparr>"

definition forced_world :: world where
  "forced_world =
     sample_world\<lparr>files := files sample_world @
        [([''proj'', ''app''], Dir), ([''proj'', ''app'', ''x''], Dir),
         ([''proj'', ''app'', ''x'', ''build.gradle''], File ''old'')]\<rparr>"

text \<open>The sample world after an asset was installed under both web roots.\<close>

definition asset_world :: world where
  "asset_world =
     sample_world\<lparr>files := files sample_world @
        [([''proj'', ''www'', ''img''], Dir),
         ([''proj'', ''www'', ''img'', ''logo.png''], File ''PNG''),
         ([''proj'', ''platform_www'', ''img''], Dir),
         ([''proj'', ''platform_www'', ''img'', ''logo.png''], File ''PNG'')]\<rparr>"

definition asset_directive :: directive where
  "asset_directive =
     \<lparr>src = Some ''img/logo.png'', target = None, targetDir = None, name = None, parent = None,
      custom = False, type = None\<rparr>"

text \<open>
  The absolute path string of a location, and the test that every name on the way from a
  location is a directory of the file system (so that no symbolic link is met).
\<close>

definition abs_path :: "path \<Rightarrow> string" where
  "abs_path p = ''/'' @ join_sep p"

fun dirs_along :: "filesystem \<Rightarrow> path \<Rightarrow> string list \<Rightarrow> bool" where
  "dirs_along fs cur [] = True"
| "dirs_along fs cur (c # cs) = (lookup fs (cur @ [c]) = Some Dir \<and> dirs_along fs (cur @ [c]) cs)"









text \<open>
  \<open>extends fs fs'\<close>: whatever \<open>fs\<close> holds, \<open>fs'\<close> holds too, except that a file may have
  another content.
\<close>

definition extends :: "filesystem \<Rightarrow> filesystem \<Rightarrow> bool" where
  "extends fs fs' =
     (\<forall>q n. lookup fs q = Some n \<longrightarrow>
        lookup fs' q = Some n \<or> (\<exists>x x'. n = File x \<and> lookup fs' q = Some (File x')))"

text \<open>
  Well-formed UTF-8, as the Unicode standard has it (table 3-7): a byte below \<^verbatim>\<open>80\<close>; or a
  byte from \<^verbatim>\<open>C2\<close> to \<^verbatim>\<open>DF\<close> and one continuation byte; or a byte from \<^verbatim>\<open>E0\<close> to \<^verbatim>\<open>EF\<close> and
  two; or a byte from \<^verbatim>\<open>F0\<close> to \<^verbatim>\<open>F4\<close> and three. A continuation byte is from \<^verbatim>\<open>80\<close> to
  \<^verbatim>\<open>BF\<close>, but the first one is from \<^verbatim>\<open>A0\<close> after \<^verbatim>\<open>E0\<close>, up to \<^verbatim>\<open>9F\<close> after \<^verbatim>\<open>ED\<close>, from \<^verbatim>\<open>90\<close>
  after \<^verbatim>\<open>F0\<close> and up to \<^verbatim>\<open>8F\<close> after \<^verbatim>\<open>F4\<close>.
\<close>

definition in_range :: "char \<Rightarrow> nat \<Rightarrow> nat \<Rightarrow> bool" where
  "in_range c lower upper = (lower \<le> of_char c \<and> of_char c \<le> upper)"

fun well_formed_utf8 :: "string \<Rightarrow> bool" where
  "well_formed_utf8 [] = True"
| "well_formed_utf8 (b # bs) =
     (let x = (of_char b :: nat)
      in if x \<le> 0x7F then well_formed_utf8 bs
         else if 0xC2 \<le> x \<and> x \<le> 0xDF
         then (case bs of
                 c1 # r \<Rightarrow> in_range c1 0x80 0xBF \<and> well_formed_utf8 r
               | _ \<Rightarrow> False)
         else if 0xE0 \<le> x \<and> x \<le> 0xEF
         then (case bs of
                 c1 # c2 # r \<Rightarrow>
                   in_range c1 (if x = 0xE0 then 0xA0 else 0x80) (if x = 0xED then 0x9F else 0xBF)
                   \<and> in_range c2 0x80 0xBF \<and> well_formed_utf8 r
               | _ \<Rightarrow> False)
         else if 0xF0 \<le> x \<and> x \<le> 0xF4
         then (case bs of
                 c1 # c2 # c3 # r \<Rightarrow>
                   in_range c1 (if x = 0xF0 then 0x90 else 0x80) (if x = 0xF4 then 0x8F else 0xBF)
                   \<and> in_range c2 0x80 0xBF \<and> in_range c3 0x80 0xBF \<and> well_formed_utf8 r
               | _ \<Rightarrow> False)
         else False)"

text \<open>Two JSON modules of the sample plugin, the second one with a name.\<close>

definition json_directive :: directive where
  "json_directive =
     \<lparr>src = Some ''www/foo.json'', target = None, targetDir = None, name = None, parent = None,
      custom = False, type = None\<rparr>"

definition named_json_directive :: directive where
  "named_json_directive =
     \<lparr>src = Some ''www/bar.json'', target = None, targetDir = None, name = Some ''Bar'',
      parent = None, custom = False, type = None\<rparr>"

section \<open>Segments of a path string\<close>

lemma split_sep_nonempty: "split_sep s \<noteq> []"
  by (induction s) (auto split: list.splits)


lemma split_sep_append: "split_sep (a @ CHR ''/'' # b) = split_sep a @ split_sep b"
  by (induction a) (auto split: list.splits simp: split_sep_nonempty)

lemma split_sep_single: "CHR ''/'' \<notin> set c \<Longrightarrow> split_sep c = [c]"
  by (induction c) auto

lemma split_sep_join: "cs \<noteq> [] \<Longrightarrow> nosep cs \<Longrightarrow> split_sep (join_sep cs) = cs"
proof (induction cs rule: join_sep.induct)
  case 1 then show ?case by simp
next
  case (2 s) then show ?case by (simp add: nosep_def split_sep_single)
next
  case (3 s t ss)
  then show ?case by (simp add: nosep_def split_sep_append split_sep_single)
qed

lemma join_sep_snoc: "cs \<noteq> [] \<Longrightarrow> join_sep (cs @ [c]) = join_sep cs @ ''/'' @ c"
  by (induction cs rule: join_sep.induct) auto

lemma join_sep_Cons_hd: "a \<noteq> [] \<Longrightarrow> join_sep (a # xs) \<noteq> [] \<and> hd (join_sep (a # xs)) = hd a"
  by (cases xs) auto

lemma split_sep_join_concat:
  "ps \<noteq> [] \<Longrightarrow> split_sep (join_sep ps) = concat (map split_sep ps)"
  by (induction ps rule: join_sep.induct) (auto simp: split_sep_append)

lemma norm_segs_append:
  "norm_segs a res (xs @ ys) = norm_segs a (rev (norm_segs a res xs)) ys"
  by (induction a res xs rule: norm_segs.induct) auto

lemma norm_segs_plain: "plain xs \<Longrightarrow> norm_segs a res xs = rev res @ xs"
  by (induction xs arbitrary: res) (auto simp: plain_def)

lemma norm_segs_filter: "norm_segs a res (filter (\<lambda>s. s \<noteq> []) xs) = norm_segs a res xs"
  by (induction a res xs rule: norm_segs.induct) auto

lemma norm_segs_concat_filter:
  "norm_segs a res (concat (map split_sep (filter (\<lambda>s. s \<noteq> []) ps)))
     = norm_segs a res (concat (map split_sep ps))"
proof (induction ps arbitrary: res)
  case Nil then show ?case by simp
next
  case (Cons p ps)
  show ?case
  proof (cases "p = []")
    case True then show ?thesis using Cons by simp
  next
    case False
    then show ?thesis using Cons by (simp add: norm_segs_append)
  qed
qed




section \<open>What \<open>path.join\<close> returns\<close>

lemma path_join_exact:
  assumes ne: "filter (\<lambda>a. a \<noteq> []) args \<noteq> []"
    and rel: "\<not> isAbsolute (join_sep (filter (\<lambda>a. a \<noteq> []) args))"
    and s: "s = join_sep (norm_segs True [] (concat (map split_sep args)))"
    and sne: "s \<noteq> []"
  shows "path_join args
           = s @ (if last (join_sep (filter (\<lambda>a. a \<noteq> []) args)) = CHR ''/'' then ''/'' else [])"
proof -
  let ?parts = "filter (\<lambda>a. a \<noteq> []) args"
  have j: "join_sep ?parts \<noteq> []"
    using ne by (cases ?parts rule: join_sep.cases) (auto dest: filter_eq_ConsD)
  have "normalizeString (join_sep ?parts) True = s"
    unfolding normalizeString_def s
    by (simp add: split_sep_join_concat[OF ne] norm_segs_concat_filter)
  then show ?thesis
    using ne rel sne j by (auto simp: path_join_def path_normalize_def Let_def)
qed

lemma path_join_plain:
  assumes cs: "plain cs" "cs \<noteq> []" and b: "plain [b]"
  shows "path_join [join_sep cs, b] = join_sep cs @ ''/'' @ b"
proof -
  have ns: "nosep cs" using cs(1) by (auto simp: plain_def nosep_def)
  have bne: "b \<noteq> []" and bs: "CHR ''/'' \<notin> set b" using b by (auto simp: plain_def)
  have hne: "hd cs \<noteq> []" "CHR ''/'' \<notin> set (hd cs)" using cs by (auto simp: plain_def)
  have tdne: "join_sep cs \<noteq> []" "hd (join_sep cs) = hd (hd cs)"
    using join_sep_Cons_hd[OF hne(1), of "tl cs"] cs(2) by simp_all
  have ne: "filter (\<lambda>a. a \<noteq> []) [join_sep cs, b] \<noteq> []" using bne by simp
  have f: "filter (\<lambda>a. a \<noteq> []) [join_sep cs, b] = [join_sep cs, b]" using bne tdne by simp
  have rel: "\<not> isAbsolute (join_sep (filter (\<lambda>a. a \<noteq> []) [join_sep cs, b]))"
    unfolding f using tdne hne by (auto simp: isAbsolute_def hd_append) (metis hd_in_set)
  have pl: "plain (cs @ [b])" using cs b by (auto simp: plain_def)
  have n: "join_sep (norm_segs True [] (concat (map split_sep [join_sep cs, b])))
            = join_sep cs @ ''/'' @ b"
    using pl by (simp add: split_sep_join[OF cs(2) ns] split_sep_single[OF bs] norm_segs_plain
        join_sep_snoc[OF cs(2)])
  have l: "last (join_sep (filter (\<lambda>a. a \<noteq> []) [join_sep cs, b])) \<noteq> CHR ''/''"
    unfolding f using bne bs by (auto simp: last_append) (metis last_in_set)
  show ?thesis
    using path_join_exact[OF ne rel n[symmetric]] l by simp
qed





section \<open>The destination of a source file\<close>

text \<open>
  C8, as stated, fails: \<^verbatim>\<open>path.join\<close> normalises what it joins. The target directory
  \<^verbatim>\<open>app/../../etc\<close> starts with \<^verbatim>\<open>app/\<close>, and the destination is \<^verbatim>\<open>../etc/Foo.kt\<close>, which is
  not the target directory followed by the basename; for the target directory \<^verbatim>\<open>app/\<close>
  the destination is \<^verbatim>\<open>app/Foo.kt\<close>, with one separator.
\<close>

theorem app_layout_counterexample:
  "reg_test ''app'' ''app/../../etc''
   \<and> getInstallDestination \<lparr>src = Some ''src/android/Foo.kt'', target = None,
        targetDir = Some ''app/../../etc'', name = None, parent = None,
        custom = False, type = None\<rparr> = Inr ''../etc/Foo.kt''
   \<and> ''../etc/Foo.kt'' \<noteq> ''app/../../etc'' @ ''/'' @ path_basename ''src/android/Foo.kt''
   \<and> reg_test ''app'' ''app/''
   \<and> getInstallDestination \<lparr>src = Some ''src/android/Foo.kt'', target = None,
        targetDir = Some ''app/'', name = None, parent = None,
        custom = False, type = None\<rparr> = Inr ''app/Foo.kt''
   \<and> ''app/Foo.kt'' \<noteq> ''app/'' @ ''/'' @ path_basename ''src/android/Foo.kt''"
  by code_simp

text \<open>
  C8, amended. For a source-file directive whose \<open>targetDir\<close> is \<^verbatim>\<open>app\<close> or starts with
  \<^verbatim>\<open>app/\<close>, \<open>getInstallDestination\<close> returns \<^verbatim>\<open>path.join(targetDir, path.basename(src))\<close>,
  the normalised path, whatever the extension of \<open>src\<close>. When \<open>targetDir\<close> is a plain path
  (names joined by single separators, none of them \<^verbatim>\<open>.\<close> or \<^verbatim>\<open>..\<close>) and the basename is a
  name, that is \<open>targetDir\<close>, a separator and the basename, character for character.
\<close>

theorem getInstallDestination_app_layout:
  assumes "src obj = Some s" and "targetDir obj = Some td" and "reg_test ''app'' td"
  shows "getInstallDestination obj = Inr (path_join [td, path_basename s])
         \<and> (\<forall>cs. plain cs \<and> td = join_sep cs \<and> plain [path_basename s]
               \<longrightarrow> getInstallDestination obj = Inr (td @ ''/'' @ path_basename s))"
proof -
  have g: "getInstallDestination obj = Inr (path_join [td, path_basename s])"
    using assms
    by (simp add: getInstallDestination_def ToString_def validateString_def path_join_js_def)
  have "path_join [td, path_basename s] = td @ ''/'' @ path_basename s"
    if "plain cs" "td = join_sep cs" "plain [path_basename s]" for cs
  proof -
    have "td \<noteq> []" using assms(3) by (auto simp: reg_test_def)
    then have "cs \<noteq> []" using that(2) by auto
    then show ?thesis using path_join_plain[OF that(1) _ that(3)] that(2) by simp
  qed
  then show ?thesis using g by simp
qed

text \<open>
  C8, amended, at a Kotlin source with the target directory \<^verbatim>\<open>app/src/main/kotlin/org/x\<close>.
\<close>

theorem getInstallDestination_app_layout_witness:
  "reg_test ''app'' ''app/src/main/kotlin/org/x''
   \<and> getInstallDestination \<lparr>src = Some ''src/android/Foo.kt'', target = None,
        targetDir = Some ''app/src/main/kotlin/org/x'', name = None, parent = None,
        custom = False, type = None\<rparr> = Inr ''app/src/main/kotlin/org/x/Foo.kt''"
proof -
  let ?obj = "\<lparr>src = Some ''src/android/Foo.kt'', target = None,
        targetDir = Some ''app/src/main/kotlin/org/x'', name = None, parent = None,
        custom = False, type = None\<rparr>"
  have h1: "src ?obj = Some ''src/android/Foo.kt''" by simp
  have h2: "targetDir ?obj = Some ''app/src/main/kotlin/org/x''" by simp
  have h3: "reg_test ''app'' ''app/src/main/kotlin/org/x''" by code_simp
  have b: "path_basename ''src/android/Foo.kt'' = ''Foo.kt''" by code_simp
  have p1: "plain [''app'', ''src'', ''main'', ''kotlin'', ''org'', ''x'']"
    by (simp add: plain_def)
  have p2: "''app/src/main/kotlin/org/x'' = join_sep [''app'', ''src'', ''main'', ''kotlin'', ''org'', ''x'']"
    by simp
  have p3: "plain [path_basename ''src/android/Foo.kt'']"
    unfolding b by (simp add: plain_def)
  from getInstallDestination_app_layout[OF h1 h2 h3]
  have "getInstallDestination ?obj
          = Inr (''app/src/main/kotlin/org/x'' @ ''/'' @ path_basename ''src/android/Foo.kt'')"
    using p1 p2 p3 by blast
  then show ?thesis using h3 unfolding b by simp
qed




section \<open>Copying is guarded\<close>



text \<open>
  C7. When the resolved destination exists, \<open>copyNewFile\<close> throws the error that says so
  and leaves the world as it was given: the test comes before the source is looked at,
  before any directory is made and before any copy.
\<close>

theorem copyNewFile_existing_destination:
  assumes "existsSync w (path_resolve (cwd w) [project_dir, dest])"
  shows \<open>copyNewFile w plugin_dir s project_dir dest lnk
           = (Inl (CordovaError (''"'' @ path_resolve (cwd w) [project_dir, dest]
                                   @ ''" already exists!'')), w)\<close>
  using assms by (simp add: copyNewFile_def)

text \<open>C7, at a destination that exists, \<^verbatim>\<open>/etc/passwd\<close>.\<close>

theorem copyNewFile_existing_destination_witness:
  \<open>copyNewFile symlink_world ''/plugin'' (Some ''evil'') ''/'' ''etc/passwd'' False
     = (Inl (CordovaError ''"/etc/passwd" already exists!''), symlink_world)\<close>
proof -
  have r: "path_resolve (cwd symlink_world) [''/'', ''etc/passwd''] = ''/etc/passwd''"
    by code_simp
  have h1: "existsSync symlink_world (path_resolve (cwd symlink_world) [''/'', ''etc/passwd''])"
    by code_simp
  show ?thesis
    using copyNewFile_existing_destination[OF h1, of "''/plugin''" "Some ''evil''" False]
    unfolding r by simp
qed

section \<open>Required attributes\<close>

text \<open>
  C4. The lib-file and resource-file installers do not test their attributes. With
  \<open>src\<close> missing from a lib-file directive, or \<open>target\<close> or \<open>src\<close> missing from a
  resource-file directive, the path module is given \<^verbatim>\<open>undefined\<close> and throws its type
  error, which is not the error that names the attribute, the element and the plugin.
\<close>

theorem install_missing_attribute_type_error:
  "lib_file_install (obj\<lparr>src := None\<rparr>) plugin project options w = (Inl ERR_INVALID_ARG_TYPE, w)
   \<and> resource_file_install (obj\<lparr>target := None\<rparr>) plugin project options w
       = (Inl ERR_INVALID_ARG_TYPE, w)
   \<and> resource_file_install (obj\<lparr>src := None, target := Some t\<rparr>) plugin project options w
       = (Inl ERR_INVALID_ARG_TYPE, w)
   \<and> ERR_INVALID_ARG_TYPE
       \<noteq> CordovaError (generateAttributeError ''src'' ''lib-file'' (plugin_id plugin))"
  by (simp add: lib_file_install_def resource_file_install_def validateString_def
      path_join_js_def copyFile_def returning_def ERR_INVALID_ARG_TYPE_def)

section \<open>The framework handler and existing destinations\<close>

lemma existsSync_emit [simp]: "existsSync (emit w c m) p = existsSync w p"
  by (simp add: existsSync_def resolve_follow_def kpath_def emit_def)

lemma cwd_emit [simp]: "cwd (emit w c m) = cwd w"
  by (simp add: emit_def)

lemma files_emit [simp]: "files (emit w c m) = files w"
  by (simp add: emit_def)

text \<open>
  C5. The framework installer never reads \<open>force\<close>. With \<open>force\<close> requested and the
  subproject directory already in the project, it throws that the destination exists and
  nothing is copied, where the claim has the copy proceed and overwrite. The source-file
  installer does read \<open>force\<close>: at a destination that exists it throws without \<open>force\<close>,
  and with \<open>force\<close> it returns and the file holds the content of the source.
\<close>

theorem framework_install_force_ignored:
  \<open>framework_install framework_directive sample_plugin sample_project
      (Some \<lparr>force = True, link = False, usePlatformWww = False\<rparr>) sample_world
    = (Inl (CordovaError ''"/proj/org.x/app-lib" already exists!''),
       emit sample_world ''verbose'' ''Installing Android library: lib'')
   \<and> source_file_install forced_directive sample_plugin sample_project
        (Some \<lparr>force = False, link = False, usePlatformWww = False\<rparr>) forced_world
      = (Inl (CordovaError ''"/proj/app/x/build.gradle" already exists!''), forced_world)
   \<and> fst (source_file_install forced_directive sample_plugin sample_project
        (Some \<lparr>force = True, link = False, usePlatformWww = False\<rparr>) forced_world)
      = Inr forced_directive
   \<and> readFileSync (snd (source_file_install forced_directive sample_plugin sample_project
        (Some \<lparr>force = True, link = False, usePlatformWww = False\<rparr>) forced_world))
        ''/proj/app/x/build.gradle'' = Inr ''apply plugin''\<close>
  by code_simp

text \<open>
  The same for every framework directive with \<open>custom\<close> set, every project and all
  options: the handler calls \<open>copyNewFile\<close>, whose first statement is the test that the
  destination exists.
\<close>

lemma framework_install_custom_existing:
  assumes "\<not> falsy (src obj)" and "custom obj"
    and "existsSync w (path_resolve (cwd w) [projectDir project,
           getCustomSubprojectRelativeDir project (plugin_id plugin) (the (src obj))])"
  shows \<open>framework_install obj plugin project options w
           = (Inl (CordovaError (''"'' @ path_resolve (cwd w) [projectDir project,
                 getCustomSubprojectRelativeDir project (plugin_id plugin) (the (src obj))]
                 @ ''" already exists!'')),
              emit w ''verbose'' (''Installing Android library: '' @ the (src obj)))\<close>
  using assms by (simp add: framework_install_def Let_def copyNewFile_def)

section \<open>Removing an asset\<close>

lemma readdirSync_error: "readdirSync w d = Inl e \<Longrightarrow> \<exists>c. e = SystemError c"
  by (auto simp: readdirSync_def split: sum.splits option.splits node.splits)

lemma rmdirSync_error: "rmdirSync w d = (Inl e, w1) \<Longrightarrow> \<exists>c. e = SystemError c"
  by (auto simp: rmdirSync_def split: sum.splits option.splits node.splits if_splits)

lemma rmSync_error: "rmSync w d = (Inl e, w1) \<Longrightarrow> \<exists>c. e = SystemError c"
  by (auto simp: rmSync_def split: sum.splits option.splits node.splits if_splits)

lemma prune_loop_error: "prune_loop w d stop = (Inl e, w') \<Longrightarrow> \<exists>c. e = SystemError c"
proof (induction w d stop rule: prune_loop.induct)
  case (1 w curDir stop)
  note p = "1.prems"[unfolded prune_loop.simps[of w curDir stop]]
  show ?case
  proof (cases "curDir \<noteq> stop \<and> existsSync w curDir")
    case False
    then show ?thesis using p by (auto split: if_splits)
  next
    case True
    show ?thesis
    proof (cases "readdirSync w curDir")
      case (Inl e')
      then show ?thesis using p True by (auto dest: readdirSync_error)
    next
      case (Inr entries)
      show ?thesis
      proof (cases "length entries = 0")
        case False
        then show ?thesis using p True Inr by auto
      next
        case l: True
        obtain r w1 where rm: "rmdirSync w curDir = (r, w1)" by (cases "rmdirSync w curDir")
        show ?thesis
        proof (cases r)
          case (Inl e')
          then show ?thesis using p True Inr l rm by (auto dest: rmdirSync_error)
        next
          case (Inr u)
          have "prune_loop w1 (path_resolve (cwd w1) [curDir, ''..'']) stop = (Inl e, w')"
            using p True \<open>readdirSync w curDir = Inr entries\<close> l rm Inr by simp
          then show ?thesis
            using "1.IH"[OF _ _ \<open>readdirSync w curDir = Inr entries\<close> l rm[symmetric] Inr] True
            by blast
        qed
      qed
    qed
  qed
qed

lemma removeFileAndParents_error:
  "removeFileAndParents w b d st = (Inl e, w') \<Longrightarrow> \<exists>c. e = SystemError c"
  by (auto simp: removeFileAndParents_def removeFileF_def Let_def
      split: if_splits prod.splits sum.splits dest: rmSync_error prune_loop_error)

text \<open>
  C10. When an asset directive has no \<open>target\<close> but a \<open>src\<close> that is not empty, the
  uninstaller removes \<open>src\<close> under the web root as \<open>removeFileAndParents\<close> does, and
  then under the platform web root when \<open>usePlatformWww\<close> is set. The uninstaller throws
  a \<open>CordovaError\<close> exactly when both \<open>target\<close> and \<open>src\<close> are missing or empty, and the
  error is then the one for the attribute \<open>target\<close> of the element \<open>asset\<close>.
\<close>

theorem asset_uninstall_src_fallback:
  "(falsy (target obj) \<and> \<not> falsy (src obj) \<longrightarrow>
      asset_uninstall obj plugin project options w
        = (case removeFileAndParents w (www project) (the (src obj)) None of
             (Inl e, w1) \<Rightarrow> (Inl e, w1)
           | (Inr u, w1) \<Rightarrow>
               if opt usePlatformWww options
               then returning obj (removeFileAndParents w1 (platformWww project) (the (src obj)) None)
               else (Inr obj, w1)))
   \<and> ((\<exists>m. fst (asset_uninstall obj plugin project options w) = Inl (CordovaError m))
        = (falsy (target obj) \<and> falsy (src obj)))
   \<and> (falsy (target obj) \<and> falsy (src obj) \<longrightarrow>
        asset_uninstall obj plugin project options w
          = (Inl (CordovaError (generateAttributeError ''target'' ''asset'' (plugin_id plugin))), w))"
proof -
  let ?t = "if falsy (target obj) then src obj else target obj"
  have a: "asset_uninstall obj plugin project options w
        = (case removeFileAndParents w (www project) (the ?t) None of
             (Inl e, w1) \<Rightarrow> (Inl e, w1)
           | (Inr u, w1) \<Rightarrow>
               if opt usePlatformWww options
               then returning obj (removeFileAndParents w1 (platformWww project) (the ?t) None)
               else (Inr obj, w1))" if "\<not> falsy ?t"
    using that by (simp add: asset_uninstall_def Let_def)
  have b: "asset_uninstall obj plugin project options w
          = (Inl (CordovaError (generateAttributeError ''target'' ''asset'' (plugin_id plugin))), w)"
    if "falsy ?t"
    using that by (simp add: asset_uninstall_def Let_def)
  have c: "fst (asset_uninstall obj plugin project options w) \<noteq> Inl (CordovaError m)"
    if "\<not> falsy ?t" for m
  proof
    assume e: "fst (asset_uninstall obj plugin project options w) = Inl (CordovaError m)"
    obtain r1 w1 where r1: "removeFileAndParents w (www project) (the ?t) None = (r1, w1)"
      by (cases "removeFileAndParents w (www project) (the ?t) None")
    obtain r2 w2 where r2: "removeFileAndParents w1 (platformWww project) (the ?t) None = (r2, w2)"
      by (cases "removeFileAndParents w1 (platformWww project) (the ?t) None")
    from e have "r1 = Inl (CordovaError m) \<or> r2 = Inl (CordovaError m)"
      unfolding a[OF that] r1 by (auto simp: returning_def r2 split: sum.splits if_splits)
    then show False
      using removeFileAndParents_error r1 r2 by blast
  qed
  have ft: "falsy ?t = (falsy (target obj) \<and> falsy (src obj))"
    by simp
  have c1: "falsy (target obj) \<and> \<not> falsy (src obj) \<longrightarrow>
      asset_uninstall obj plugin project options w
        = (case removeFileAndParents w (www project) (the (src obj)) None of
             (Inl e, w1) \<Rightarrow> (Inl e, w1)
           | (Inr u, w1) \<Rightarrow>
               if opt usePlatformWww options
               then returning obj (removeFileAndParents w1 (platformWww project) (the (src obj)) None)
               else (Inr obj, w1))"
  proof
    assume h: "falsy (target obj) \<and> \<not> falsy (src obj)"
    then show "asset_uninstall obj plugin project options w
        = (case removeFileAndParents w (www project) (the (src obj)) None of
             (Inl e, w1) \<Rightarrow> (Inl e, w1)
           | (Inr u, w1) \<Rightarrow>
               if opt usePlatformWww options
               then returning obj (removeFileAndParents w1 (platformWww project) (the (src obj)) None)
               else (Inr obj, w1))"
      by (simp add: asset_uninstall_def Let_def)
  qed
  have c2: "(\<exists>m. fst (asset_uninstall obj plugin project options w) = Inl (CordovaError m))
        = (falsy (target obj) \<and> falsy (src obj))"
  proof (cases "falsy ?t")
    case True
    then show ?thesis using b[OF True] ft by auto
  next
    case False
    then show ?thesis using c[OF False] ft by blast
  qed
  have c3: "falsy (target obj) \<and> falsy (src obj) \<longrightarrow>
        asset_uninstall obj plugin project options w
          = (Inl (CordovaError (generateAttributeError ''target'' ''asset'' (plugin_id plugin))), w)"
    using b ft by blast
  show ?thesis
    using c1 c2 c3 by blast
qed

text \<open>
  C10, at an asset installed under both web roots: the file and the directory made for it
  are removed from both.
\<close>

theorem asset_uninstall_src_fallback_witness:
  "falsy (target asset_directive) \<and> \<not> falsy (src asset_directive)
   \<and> asset_uninstall asset_directive sample_plugin sample_project
        (Some \<lparr>force = False, link = False, usePlatformWww = True\<rparr>) asset_world
      = (Inr asset_directive, sample_world)"
proof -
  have h: "falsy (target asset_directive) \<and> \<not> falsy (src asset_directive)"
    by code_simp
  have e: "(case removeFileAndParents asset_world (www sample_project) (the (src asset_directive)) None of
             (Inl e, w1) \<Rightarrow> (Inl e, w1)
           | (Inr u, w1) \<Rightarrow>
               if opt usePlatformWww (Some \<lparr>force = False, link = False, usePlatformWww = True\<rparr>)
               then returning asset_directive
                      (removeFileAndParents w1 (platformWww sample_project) (the (src asset_directive)) None)
               else (Inr asset_directive, w1)) = (Inr asset_directive, sample_world)"
    by code_simp
  show ?thesis
    using asset_uninstall_src_fallback[of asset_directive sample_plugin sample_project
                 "Some \<lparr>force = False, link = False, usePlatformWww = True\<rparr>" asset_world] h e
    by simp
qed

section \<open>Paths of locations\<close>

lemma plain_append [simp]: "plain (xs @ ys) = (plain xs \<and> plain ys)"
  by (auto simp: plain_def)

lemma plain_Nil [simp]: "plain []"
  by (simp add: plain_def)





lemma isAbsolute_abs_path [simp]: "isAbsolute (abs_path p)"
  by (simp add: isAbsolute_def abs_path_def)








lemma rev_join_sep_snoc:
  "q \<noteq> [] \<Longrightarrow> rev (join_sep (q @ [c])) = rev c @ CHR ''/'' # rev (join_sep q)"
  by (simp add: join_sep_snoc)





section \<open>File system calls on plain locations\<close>


lemma dirs_along_append:
  "dirs_along fs cur (xs @ ys) = (dirs_along fs cur xs \<and> dirs_along fs (cur @ xs) ys)"
  by (induction xs arbitrary: cur) auto

lemma dirs_along_butlast: "dirs_along fs cur cs \<Longrightarrow> dirs_along fs cur (butlast cs)"
  by (cases cs rule: rev_cases) (auto simp: dirs_along_append)

lemma dirs_along_lookup: "dirs_along fs [] d \<Longrightarrow> lookup fs d = Some Dir"
  by (cases d rule: rev_cases) (auto simp: dirs_along_append lookup_def)











section \<open>The pruning loop\<close>


















section \<open>Reading after writing\<close>

lemma extends_refl: "extends fs fs"
  by (simp add: extends_def)

lemma extends_trans: "extends a b \<Longrightarrow> extends b c \<Longrightarrow> extends a c"
  unfolding extends_def by (metis option.inject)

lemma lookup_update:
  "lookup (AList.update p n fs) q = (if q = p \<and> p \<noteq> [] then Some n else lookup fs q)"
  by (auto simp: lookup_def update_conv')

lemma extends_update_new: "lookup fs p = None \<Longrightarrow> extends fs (AList.update p n fs)"
  by (auto simp: extends_def lookup_update)

lemma extends_update_file:
  "lookup fs p = Some (File x) \<Longrightarrow> extends fs (AList.update p (File c) fs)"
  by (auto simp: extends_def lookup_update)

lemma walk_extends:
  "extends fs fs' \<Longrightarrow> walk fuel fs False cur cs = Inr p \<Longrightarrow> walk fuel fs' False cur cs = Inr p"
proof (induction fuel fs "False" cur cs rule: walk.induct)
  case (1 fuel fs cur)
  then show ?case by simp
next
  case (2 fuel fs cur c rest)
  show ?case
  proof (cases "c = ''.'' \<or> c = ''..''")
    case True
    then show ?thesis using 2 by auto
  next
    case False
    then have c: "c \<noteq> ''.''" "c \<noteq> ''..''" by auto
    show ?thesis
    proof (cases "lookup fs (cur @ [c])")
      case None
      then show ?thesis using "2.prems" c by simp
    next
      case (Some n)
      show ?thesis
      proof (cases n)
        case (File x)
        then obtain x' where "lookup fs' (cur @ [c]) = Some (File x')"
          using Some "2.prems"(1) by (auto simp: extends_def)
        then show ?thesis using "2.prems" c Some File by (auto split: if_splits)
      next
        case Dir
        then have "lookup fs' (cur @ [c]) = Some Dir"
          using Some "2.prems"(1) by (auto simp: extends_def)
        then show ?thesis using "2.prems" c Some Dir "2.hyps"(3)[OF c Some Dir] by simp
      next
        case (Symlink t)
        then have l: "lookup fs' (cur @ [c]) = Some (Symlink t)"
          using Some "2.prems"(1) by (auto simp: extends_def)
        show ?thesis
        proof (cases fuel)
          case 0
          then show ?thesis using "2.prems" c Some Symlink by simp
        next
          case (Suc f)
          then show ?thesis
            using "2.prems" c Some Symlink l "2.hyps"(4)[OF c Some Symlink Suc] by simp
        qed
      qed
    qed
  qed
qed

lemma walk_not_symlink:
  "dirs_along fs [] cur \<Longrightarrow> walk fuel fs create cur cs = Inr p \<Longrightarrow> lookup fs p \<noteq> Some (Symlink t)"
proof (induction fuel fs create cur cs rule: walk.induct)
  case (1 fuel fs create cur)
  then show ?case by (simp add: dirs_along_lookup)
next
  case (2 fuel fs create cur c rest)
  show ?case
  proof (cases "c = ''.''")
    case True
    then show ?thesis using 2 by simp
  next
    case nd: False
    show ?thesis
    proof (cases "c = ''..''")
      case True
      then show ?thesis using 2 nd dirs_along_butlast[OF "2.prems"(1)] by simp
    next
      case ndd: False
      show ?thesis
      proof (cases "lookup fs (cur @ [c])")
        case None
        then show ?thesis using "2.prems" nd ndd by (auto split: if_splits)
      next
        case (Some n)
        show ?thesis
        proof (cases n)
          case (File x)
          then show ?thesis using "2.prems" nd ndd Some by (auto split: if_splits)
        next
          case Dir
          then have "dirs_along fs [] (cur @ [c])"
            using "2.prems"(1) Some by (simp add: dirs_along_append)
          then show ?thesis using "2.prems" nd ndd Some Dir "2.IH"(3)[OF nd ndd Some Dir] by simp
        next
          case (Symlink t')
          show ?thesis
          proof (cases fuel)
            case 0
            then show ?thesis using "2.prems" nd ndd Some Symlink by simp
          next
            case (Suc f)
            have "dirs_along fs [] (if isAbsolute t' then [] else cur)"
              using "2.prems"(1) by simp
            then show ?thesis
              using "2.prems" nd ndd Some Symlink Suc "2.IH"(4)[OF nd ndd Some Symlink Suc]
              by simp
          qed
        qed
      qed
    qed
  qed
qed

lemma walk_after_write:
  assumes "walk fuel fs True cur cs = Inr p"
    and "lookup fs p = None \<or> (\<exists>x. lookup fs p = Some (File x))"
  shows "walk fuel (AList.update p (File c) fs) False cur cs = Inr p"
  using assms
proof (induction fuel fs "True" cur cs rule: walk.induct)
  case (1 fuel fs cur)
  then show ?case by simp
next
  case (2 fuel fs cur d rest)
  let ?fs' = "AList.update p (File c) fs"
  have pne: "p \<noteq> []" using "2.prems"(2) by (auto simp: lookup_def)
  show ?case
  proof (cases "d = ''.'' \<or> d = ''..''")
    case True
    then show ?thesis using 2 by auto
  next
    case False
    then have c: "d \<noteq> ''.''" "d \<noteq> ''..''" by auto
    show ?thesis
    proof (cases "lookup fs (cur @ [d])")
      case None
      then have "rest = []" "p = cur @ [d]" using "2.prems"(1) c by (auto split: if_splits)
      then show ?thesis using c by (simp add: lookup_update)
    next
      case (Some n)
      show ?thesis
      proof (cases n)
        case (File x)
        then have "rest = []" "p = cur @ [d]" using "2.prems"(1) c Some by (auto split: if_splits)
        then show ?thesis using c by (simp add: lookup_update)
      next
        case Dir
        then have "cur @ [d] \<noteq> p" using Some "2.prems"(2) by auto
        then have "lookup ?fs' (cur @ [d]) = Some Dir"
          using Some Dir by (simp add: lookup_update)
        then show ?thesis
          using "2.prems" c Some Dir "2.hyps"(3)[OF c Some Dir] by simp
      next
        case (Symlink t)
        then have "cur @ [d] \<noteq> p" using Some "2.prems"(2) by auto
        then have l: "lookup ?fs' (cur @ [d]) = Some (Symlink t)"
          using Some Symlink by (simp add: lookup_update)
        show ?thesis
        proof (cases fuel)
          case 0
          then show ?thesis using "2.prems" c Some Symlink by simp
        next
          case (Suc f)
          then show ?thesis
            using "2.prems" c Some Symlink l "2.hyps"(4)[OF c Some Symlink Suc] by simp
        qed
      qed
    qed
  qed
qed

lemma mkdirp_keeps:
  "mkdirp fs cur cs = (r, fs') \<Longrightarrow> lookup fs q \<noteq> None \<Longrightarrow> lookup fs' q = lookup fs q"
proof (induction fs cur cs arbitrary: r fs' rule: mkdirp.induct)
  case (1 fs cur)
  then show ?case by simp
next
  case (2 fs cur c rest)
  show ?case
  proof (cases "c = ''.'' \<or> c = ''..''")
    case True
    then show ?thesis using 2 by auto
  next
    case False
    then have c: "c \<noteq> ''.''" "c \<noteq> ''..''" by auto
    show ?thesis
    proof (cases "lookup fs (cur @ [c])")
      case None
      let ?fs1 = "AList.update (cur @ [c]) Dir fs"
      have m: "mkdirp ?fs1 (cur @ [c]) rest = (r, fs')"
        using "2.prems"(1) c None by simp
      have "lookup ?fs1 q = lookup fs q"
        using None "2.prems"(2) by (auto simp: lookup_update)
      then show ?thesis
        using "2.IH"(3)[OF c None m] "2.prems"(2) by simp
    next
      case (Some n)
      show ?thesis
      proof (cases n)
        case (File x)
        then show ?thesis using "2.prems" c Some by simp
      next
        case Dir
        then show ?thesis using "2.prems" c Some "2.IH"(4)[OF c Some Dir] by simp
      next
        case (Symlink t)
        show ?thesis
        proof (cases "walk MAXSYMLINKS fs False cur [c]")
          case (Inl e)
          then show ?thesis using "2.prems" c Some Symlink by simp
        next
          case (Inr d)
          show ?thesis
          proof (cases "lookup fs d = Some Dir")
            case True
            then show ?thesis
              using "2.prems" c Some Symlink Inr "2.IH"(5)[OF c Some Symlink Inr True] by simp
          next
            case False
            then show ?thesis
              using "2.prems" c Some Symlink Inr
              by (auto split: option.splits node.splits)
          qed
        qed
      qed
    qed
  qed
qed

lemma keeps_extends: "(\<And>q. lookup fs q \<noteq> None \<Longrightarrow> lookup fs' q = lookup fs q) \<Longrightarrow> extends fs fs'"
  by (auto simp: extends_def)

lemma kpath_files [simp]: "kpath (w\<lparr>files := fs\<rparr>) s = kpath w s"
  by (simp add: kpath_def)

lemma readFileSync_elim:
  assumes "readFileSync w s = Inr c"
  obtains p where "walk MAXSYMLINKS (files w) False [] (kpath w s) = Inr p"
    and "lookup (files w) p = Some (File c)"
  using assms
  by (auto simp: readFileSync_def resolve_follow_def split: sum.splits option.splits node.splits)

lemma readFileSync_intro:
  "walk MAXSYMLINKS (files w) False [] (kpath w s) = Inr p \<Longrightarrow> lookup (files w) p = Some (File c)
     \<Longrightarrow> readFileSync w s = Inr c"
  by (simp add: readFileSync_def resolve_follow_def)

lemma writeFileSync_elim:
  assumes "writeFileSync w s c = (Inr u, w')"
  obtains p where "walk MAXSYMLINKS (files w) True [] (kpath w s) = Inr p"
    and "lookup (files w) p = None \<or> (\<exists>x. lookup (files w) p = Some (File x))"
    and "w' = w\<lparr>files := AList.update p (File c) (files w)\<rparr>"
proof -
  from assms obtain p where p: "walk MAXSYMLINKS (files w) True [] (kpath w s) = Inr p"
      "lookup (files w) p \<noteq> Some Dir" "w' = w\<lparr>files := AList.update p (File c) (files w)\<rparr>"
    by (auto simp: writeFileSync_def split: sum.splits option.splits node.splits)
  have "lookup (files w) p \<noteq> Some (Symlink t)" for t
    using walk_not_symlink[OF _ p(1)] by simp
  then have "lookup (files w) p = None \<or> (\<exists>x. lookup (files w) p = Some (File x))"
    using p(2) by (cases "lookup (files w) p") (auto, case_tac a, auto)
  then show ?thesis using that p by blast
qed

lemma write_then_read:
  assumes "writeFileSync w s c = (Inr u, w')"
  shows "readFileSync w' s = Inr c"
proof -
  from assms obtain p where p: "walk MAXSYMLINKS (files w) True [] (kpath w s) = Inr p"
    "lookup (files w) p = None \<or> (\<exists>x. lookup (files w) p = Some (File x))"
    "w' = w\<lparr>files := AList.update p (File c) (files w)\<rparr>"
    by (rule writeFileSync_elim)
  have pne: "p \<noteq> []" using p(2) by (auto simp: lookup_def)
  show ?thesis
    using walk_after_write[OF p(1,2), of c] pne
    by (intro readFileSync_intro[where p = p]) (simp_all add: p(3) lookup_update)
qed

lemma read_after_mkdir:
  assumes "readFileSync w s = Inr c" and "mkdirSync_recursive w d = (r, w')"
  shows "readFileSync w' s = Inr c"
proof -
  from assms(1) obtain p where p: "walk MAXSYMLINKS (files w) False [] (kpath w s) = Inr p"
    "lookup (files w) p = Some (File c)"
    by (rule readFileSync_elim)
  obtain r0 fs' where m: "mkdirp (files w) [] (kpath w d) = (r0, fs')"
    by (cases "mkdirp (files w) [] (kpath w d)")
  then have w': "w' = w\<lparr>files := fs'\<rparr>"
    using assms(2) by (auto simp: mkdirSync_recursive_def split: sum.splits)
  have k: "lookup fs' q = lookup (files w) q" if "lookup (files w) q \<noteq> None" for q
    using mkdirp_keeps[OF m that] .
  have "walk MAXSYMLINKS fs' False [] (kpath w s) = Inr p"
    using walk_extends[OF keeps_extends p(1)] k by blast
  moreover have "lookup fs' p = Some (File c)" using k[of p] p(2) by simp
  ultimately show ?thesis
    by (intro readFileSync_intro[where p = p]) (simp_all add: w')
qed

lemma read_after_write:
  assumes "readFileSync w s = Inr c" and "writeFileSync w s2 c = (Inr u, w')"
  shows "readFileSync w' s = Inr c"
proof -
  from assms(1) obtain p where p: "walk MAXSYMLINKS (files w) False [] (kpath w s) = Inr p"
    "lookup (files w) p = Some (File c)"
    by (rule readFileSync_elim)
  from assms(2) obtain p2 where p2:
    "lookup (files w) p2 = None \<or> (\<exists>x. lookup (files w) p2 = Some (File x))"
    "w' = w\<lparr>files := AList.update p2 (File c) (files w)\<rparr>"
    by (rule writeFileSync_elim)
  have e: "extends (files w) (AList.update p2 (File c) (files w))"
    using p2(1) extends_update_new extends_update_file by blast
  have "lookup (AList.update p2 (File c) (files w)) p = Some (File c)"
    using p(2) by (simp add: lookup_update)
  then show ?thesis
    using walk_extends[OF e p(1)]
    by (intro readFileSync_intro[where p = p]) (simp_all add: p2(2))
qed

section \<open>The module file of a JSON source\<close>

lemma split_sep_suffix:
  "CHR ''/'' \<notin> set e \<Longrightarrow> split_sep (a @ e) = butlast (split_sep a) @ [last (split_sep a) @ e]"
proof (induction a)
  case Nil
  then show ?case by (simp add: split_sep_single)
next
  case (Cons c a)
  obtain x xs where x: "split_sep a = x # xs"
    using split_sep_nonempty[of a] by (cases "split_sep a") auto
  obtain y ys where y: "split_sep (a @ e) = y # ys"
    using split_sep_nonempty[of "a @ e"] by (cases "split_sep (a @ e)") auto
  show ?case
    using Cons x y by (cases xs) auto
qed

lemma resolve_collect_acc:
  "\<exists>A. fst (resolve_collect ps acc) = A @ acc \<and> (A = [] \<or> last A = CHR ''/'')"
proof (induction ps arbitrary: acc)
  case Nil
  then show ?case by simp
next
  case (Cons p ps)
  show ?case
  proof (cases "p = []")
    case True
    then show ?thesis using Cons by simp
  next
    case False
    show ?thesis
    proof (cases "isAbsolute p")
      case True
      have "fst (resolve_collect (p # ps) acc) = (p @ ''/'') @ acc" using True False by simp
      then show ?thesis by (intro exI[where x = "p @ ''/''"]) simp
    next
      case na: False
      obtain A where A: "fst (resolve_collect ps (p @ ''/'' @ acc)) = A @ (p @ ''/'' @ acc)"
        using Cons[of "p @ ''/'' @ acc"] by blast
      have "fst (resolve_collect (p # ps) acc) = (A @ p @ ''/'') @ acc"
        using False na A by simp
      then show ?thesis by (intro exI[where x = "A @ p @ ''/''"]) simp
    qed
  qed
qed

lemma resolve_collect_last:
  assumes "s \<noteq> []"
  shows "\<exists>X. split_sep (fst (resolve_collect (s # rest) [])) = X @ split_sep s @ [[]]"
proof (cases "isAbsolute s")
  case True
  then have "fst (resolve_collect (s # rest) []) = s @ CHR ''/'' # []" using assms by simp
  then show ?thesis by (simp only: split_sep_append) simp
next
  case False
  obtain A where A: "fst (resolve_collect rest (s @ ''/'')) = A @ s @ ''/''"
      "A = [] \<or> last A = CHR ''/''"
    using resolve_collect_acc[of rest "s @ ''/''"] by auto
  have f: "fst (resolve_collect (s # rest) []) = A @ s @ CHR ''/'' # []"
    using False assms A by simp
  show ?thesis
  proof (cases "A = []")
    case True
    then show ?thesis unfolding f by (simp add: split_sep_append)
  next
    case ne: False
    then obtain B where B: "A = B @ CHR ''/'' # []"
      using A(2) by (metis append_butlast_last_id)
    have "split_sep (B @ CHR ''/'' # (s @ CHR ''/'' # [])) = split_sep B @ split_sep s @ [[]]"
      by (simp only: split_sep_append) simp
    then show ?thesis unfolding f B by auto
  qed
qed

lemma join_sep_suffix: "suffix x (join_sep (N @ [x]))"
  by (cases "N = []") (auto simp: join_sep_snoc suffix_def)

lemma path_resolve_endsWith:
  assumes "endsWith s e" and e: "CHR ''/'' \<notin> set e" "length e > 2"
  shows "endsWith (path_resolve c [d, s]) e"
proof -
  obtain s0 where s0: "s = s0 @ e" using assms(1) by (auto simp: endsWith_def suffix_def)
  define x where "x = last (split_sep s0) @ e"
  have sp: "split_sep s = butlast (split_sep s0) @ [x]"
    unfolding s0 x_def using e(1) by (rule split_sep_suffix)
  have xs: "suffix e x" by (simp add: x_def suffix_def)
  have xl: "length x > 2" using e(2) by (simp add: x_def)
  then have xn: "x \<noteq> []" "x \<noteq> ''.''" "x \<noteq> ''..''" by auto
  have sne: "s \<noteq> []" using s0 e(2) by auto
  obtain rp ab where r: "resolve_collect (rev (c # [d, s])) [] = (rp, ab)"
    by (cases "resolve_collect (rev (c # [d, s])) []")
  obtain X where X: "split_sep rp = X @ split_sep s @ [[]]"
    using resolve_collect_last[OF sne, of "[d, c]"] r by auto
  have "norm_segs a [] (split_sep rp) = norm_segs a [] (X @ butlast (split_sep s0)) @ [x]" for a
    unfolding X sp using xn
    by (simp add: norm_segs_append[of a "[]" "X @ butlast (split_sep s0)" "[x, []]", simplified])
  then have "suffix x (normalizeString rp a)" for a
    unfolding normalizeString_def by (simp add: join_sep_suffix)
  then have suf: "suffix e (normalizeString rp a)" for a
    using xs by (meson suffix_order.trans)
  then have ne: "normalizeString rp a \<noteq> []" for a
    using e(2) by (metis length_greater_0_conv less_nat_zero_code list.size(3) suffix_bot.extremum_uniqueI
        less_trans zero_less_numeral)
  show ?thesis
    unfolding endsWith_def path_resolve_def r
    using suf ne by (auto simp: Let_def suffix_Cons)
qed

lemma cwd_mkdirSync_recursive: "mkdirSync_recursive w d = (r, w') \<Longrightarrow> cwd w' = cwd w"
  by (auto simp: mkdirSync_recursive_def split: prod.splits sum.splits)

lemma cwd_writeFileSync: "writeFileSync w s c = (r, w') \<Longrightarrow> cwd w' = cwd w"
  by (auto simp: writeFileSync_def split: sum.splits option.splits node.splits)


lemma dec1:
  "in_range c lower upper \<Longrightarrow>
     utf8_decode (Suc 0) lower upper seen (c # r) = seen @ [c] @ utf8_decode 0 0x80 0xBF [] r"
  by (auto simp: in_range_def Let_def)

lemma decn:
  "in_range c lower upper \<Longrightarrow>
     utf8_decode (Suc (Suc n)) lower upper seen (c # r) = utf8_decode (Suc n) 0x80 0xBF (seen @ [c]) r"
  by (auto simp: in_range_def Let_def)

lemma dec0:
  "utf8_decode 0 lower upper seen (b # bs) =
     (let x = (of_char b :: nat)
      in if x \<le> 0x7F then b # utf8_decode 0 0x80 0xBF [] bs
            else if 0xC2 \<le> x \<and> x \<le> 0xDF then utf8_decode 1 0x80 0xBF [b] bs
            else if 0xE0 \<le> x \<and> x \<le> 0xEF
            then utf8_decode 2 (if x = 0xE0 then 0xA0 else 0x80) (if x = 0xED then 0x9F else 0xBF)
                   [b] bs
            else if 0xF0 \<le> x \<and> x \<le> 0xF4
            then utf8_decode 3 (if x = 0xF0 then 0x90 else 0x80) (if x = 0xF4 then 0x8F else 0xBF)
                   [b] bs
            else REPLACEMENT_CHARACTER @ utf8_decode 0 0x80 0xBF [] bs)"
  by (simp add: Let_def)

lemma utf8_decode_well_formed:
  "well_formed_utf8 bs \<Longrightarrow> utf8_decode 0 lower upper seen bs = bs"
proof (induction bs arbitrary: lower upper seen rule: well_formed_utf8.induct)
  case 1
  then show ?case by simp
next
  case (2 b bs)
  define x where "x = (of_char b :: nat)"
  consider (a) "x \<le> 0x7F" | (b) "\<not> x \<le> 0x7F" "0xC2 \<le> x \<and> x \<le> 0xDF"
    | (c) "\<not> x \<le> 0x7F" "\<not> (0xC2 \<le> x \<and> x \<le> 0xDF)" "0xE0 \<le> x \<and> x \<le> 0xEF"
    | (d) "\<not> x \<le> 0x7F" "\<not> (0xC2 \<le> x \<and> x \<le> 0xDF)" "\<not> (0xE0 \<le> x \<and> x \<le> 0xEF)"
          "0xF0 \<le> x \<and> x \<le> 0xF4"
    | (e) "\<not> x \<le> 0x7F" "\<not> (0xC2 \<le> x \<and> x \<le> 0xDF)" "\<not> (0xE0 \<le> x \<and> x \<le> 0xEF)"
          "\<not> (0xF0 \<le> x \<and> x \<le> 0xF4)"
    by blast
  then show ?case
  proof cases
    case a
    then have "well_formed_utf8 bs" using "2.prems" by (simp add: x_def Let_def)
    then have "utf8_decode 0 0x80 0xBF [] bs = bs"
      using "2.IH"(1)[OF x_def a] by simp
    then show ?thesis
      using a unfolding dec0 by (simp add: x_def[symmetric] Let_def del: utf8_decode.simps)
  next
    case b
    then obtain c1 r where bs: "bs = c1 # r" and c1: "in_range c1 0x80 0xBF" and r: "well_formed_utf8 r"
      using "2.prems" by (auto simp: x_def Let_def split: list.splits)
    have "utf8_decode 0 0x80 0xBF [] r = r"
      using "2.IH"(2)[OF x_def b bs] r by simp
    then show ?thesis
      using b unfolding dec0 bs
      by (simp add: x_def[symmetric] Let_def dec1[OF c1] del: utf8_decode.simps)
  next
    case c
    let ?lo = "if x = 0xE0 then 0xA0 else (0x80::nat)"
    let ?hi = "if x = 0xED then 0x9F else (0xBF::nat)"
    from c obtain c1 c2 r where bs: "bs = c1 # c2 # r" and c1: "in_range c1 ?lo ?hi"
      and c2: "in_range c2 0x80 0xBF" and r: "well_formed_utf8 r"
      using "2.prems" by (auto simp: x_def Let_def split: list.splits)
    have ih: "utf8_decode 0 0x80 0xBF [] r = r"
      using "2.IH"(3)[OF x_def c bs refl] r by simp
    have "utf8_decode 2 ?lo ?hi [b] (c1 # c2 # r) = [b, c1, c2] @ r"
      using decn[OF c1, of 0 "[b]" "c2 # r"] dec1[OF c2, of "[b, c1]" r] ih
      by (simp add: numeral_2_eq_2 del: utf8_decode.simps)
    then show ?thesis
      using c unfolding dec0 bs by (simp add: x_def[symmetric] Let_def del: utf8_decode.simps)
  next
    case d
    let ?lo = "if x = 0xF0 then 0x90 else (0x80::nat)"
    let ?hi = "if x = 0xF4 then 0x8F else (0xBF::nat)"
    from d obtain c1 c2 c3 r where bs: "bs = c1 # c2 # c3 # r" and c1: "in_range c1 ?lo ?hi"
      and c2: "in_range c2 0x80 0xBF" and c3: "in_range c3 0x80 0xBF" and r: "well_formed_utf8 r"
      using "2.prems" by (auto simp: x_def Let_def split: list.splits)
    have ih: "utf8_decode 0 0x80 0xBF [] r = r"
      using "2.IH"(4)[OF x_def d bs refl refl] r by simp
    have "utf8_decode 3 ?lo ?hi [b] (c1 # c2 # c3 # r) = [b, c1, c2, c3] @ r"
      using decn[OF c1, of "Suc 0" "[b]" "c2 # c3 # r"] decn[OF c2, of 0 "[b, c1]" "c3 # r"]
        dec1[OF c3, of "[b, c1, c2]" r] ih
      by (simp add: numeral_3_eq_3 del: utf8_decode.simps)
    then show ?thesis
      using d unfolding dec0 bs by (simp add: x_def[symmetric] Let_def del: utf8_decode.simps)
  next
    case e
    then have False
      using "2.prems" by (auto simp: x_def[symmetric] Let_def split: if_splits)
    then show ?thesis ..
  qed
qed

text \<open>
  C9. For a js-module directive whose \<open>src\<close> ends in \<^verbatim>\<open>.json\<close>, when the installer returns,
  the file at \<^verbatim>\<open>path.resolve(www, 'plugins', plugin.id, src)\<close> holds the \<^verbatim>\<open>cordova.define\<close>
  envelope for the module \<open>plugin.id\<close>, a dot, and \<open>obj.name\<close> when it is there, otherwise
  the basename of \<open>src\<close> without its extension; inside the envelope, after
  \<^verbatim>\<open>module.exports = \<close>, comes the content of the source as the UTF-8 decoder gives it,
  without the three bytes \<^verbatim>\<open>EF BB BF\<close> of a byte order mark when it starts with them. With
  \<open>usePlatformWww\<close> the file under the platform web root holds the same. For a source
  that is well-formed UTF-8, what comes after \<^verbatim>\<open>module.exports = \<close> is the source, byte for
  byte, without the bytes \<^verbatim>\<open>EF BB BF\<close> when the source starts with them.
\<close>

theorem js_module_install_json:
  assumes s: "src obj = Some s" and json: "endsWith s ''.json''"
    and bytes: "readFileSync w (path_resolve (cwd w) [dir plugin, s]) = Inr bytes"
    and ok: "js_module_install obj plugin project options w = (Inr obj', w')"
    and content: "content = toString_utf8 bytes"
    and stripped: "stripped = (if prefix [CHR 0xEF, CHR 0xBB, CHR 0xBF] content
                               then drop 3 content else content)"
  shows \<open>readFileSync w' (path_resolve (cwd w) [www project, ''plugins'', plugin_id plugin, s])
           = Inr (''cordova.define("'' @ plugin_id plugin @ ''.''
                  @ (if falsy (name obj) then path_basename_ext s (path_extname s) else the (name obj))
                  @ ''", function(require, exports, module) {\<newline>''
                  @ ''module.exports = '' @ stripped @ ''\<newline>});\<newline>'')
         \<and> (opt usePlatformWww options \<longrightarrow>
              readFileSync w' (path_resolve (cwd w) [platformWww project, ''plugins'', plugin_id plugin, s])
                = Inr (''cordova.define("'' @ plugin_id plugin @ ''.''
                  @ (if falsy (name obj) then path_basename_ext s (path_extname s) else the (name obj))
                  @ ''", function(require, exports, module) {\<newline>''
                  @ ''module.exports = '' @ stripped @ ''\<newline>});\<newline>''))
         \<and> (well_formed_utf8 bytes \<longrightarrow>
              stripped = (if prefix [CHR 0xEF, CHR 0xBB, CHR 0xBF] bytes
                          then drop 3 bytes else bytes))\<close>
proof -
  have sb: "strip_bom content = stripped"
    unfolding stripped by (simp add: strip_bom_def BOM_def numeral_3_eq_3)
  have rdu: "readFileSync_utf8 w (path_resolve (cwd w) [dir plugin, s]) = Inr content"
    by (simp add: readFileSync_utf8_def bytes content)
  define sc where \<open>sc = ''cordova.define("'' @ (plugin_id plugin @ ''.''
                  @ (if falsy (name obj) then path_basename_ext s (path_extname s) else the (name obj)))
                  @ ''", function(require, exports, module) {\<newline>''
                  @ (''module.exports = '' @ strip_bom content) @ ''\<newline>});\<newline>''\<close>
  have sc_flat: \<open>sc = ''cordova.define("'' @ plugin_id plugin @ ''.''
                  @ (if falsy (name obj) then path_basename_ext s (path_extname s) else the (name obj))
                  @ ''", function(require, exports, module) {\<newline>''
                  @ ''module.exports = '' @ stripped @ ''\<newline>});\<newline>''\<close>
    unfolding sc_def sb by (simp only: append_assoc)
  let ?dest = "path_resolve (cwd w) [www project, ''plugins'', plugin_id plugin, s]"
  let ?pdest = "path_resolve (cwd w) [platformWww project, ''plugins'', plugin_id plugin, s]"
  have j: "endsWith (path_resolve (cwd w) [dir plugin, s]) ''.json''"
    using json by (rule path_resolve_endsWith) simp_all
  obtain r1 w1 where m1: "mkdirSync_recursive w (path_dirname ?dest) = (r1, w1)"
    by (cases "mkdirSync_recursive w (path_dirname ?dest)")
  obtain r2 w2 where wr1: "writeFileSync w1 ?dest sc = (r2, w2)"
    by (cases "writeFileSync w1 ?dest sc")
  have c2: "cwd w2 = cwd w"
    using cwd_mkdirSync_recursive[OF m1] cwd_writeFileSync[OF wr1] by simp
  obtain r3 w3 where m2: "mkdirSync_recursive w2 (path_dirname ?pdest) = (r3, w3)"
    by (cases "mkdirSync_recursive w2 (path_dirname ?pdest)")
  obtain r4 w4 where wr2: "writeFileSync w3 ?pdest sc = (r4, w4)"
    by (cases "writeFileSync w3 ?pdest sc")
  have eq0: "js_module_install obj plugin project options w
      = (case mkdirSync_recursive w (path_dirname ?dest) of
           (Inl e, w1) \<Rightarrow> (Inl e, w1)
         | (Inr u, w1) \<Rightarrow>
             (case writeFileSync w1 ?dest sc of
                (Inl e, w2) \<Rightarrow> (Inl e, w2)
              | (Inr u, w2) \<Rightarrow>
                  if opt usePlatformWww options then
                    (case mkdirSync_recursive w2
                            (path_dirname (path_resolve (cwd w2)
                               [platformWww project, ''plugins'', plugin_id plugin, s])) of
                       (Inl e, w3) \<Rightarrow> (Inl e, w3)
                     | (Inr u, w3) \<Rightarrow>
                         returning obj (writeFileSync w3 (path_resolve (cwd w2)
                               [platformWww project, ''plugins'', plugin_id plugin, s]) sc))
                  else (Inr obj, w2)))"
    unfolding js_module_install_def Let_def s validateString_def sc_def
    by (simp only: option.case sum.case rdu j if_True)
  have eq: "js_module_install obj plugin project options w
      = (case r1 of Inl e \<Rightarrow> (Inl e, w1) | Inr u \<Rightarrow>
          (case r2 of Inl e \<Rightarrow> (Inl e, w2) | Inr u \<Rightarrow>
             if opt usePlatformWww options then
               (case r3 of Inl e \<Rightarrow> (Inl e, w3) | Inr u \<Rightarrow> returning obj (r4, w4))
             else (Inr obj, w2)))"
    unfolding eq0 using m1 wr1 m2 wr2 c2
    by (simp split: sum.splits)
  from ok eq obtain u1 u2 where r12: "r1 = Inr u1" "r2 = Inr u2"
    by (auto split: sum.splits)
  have rd2: "readFileSync w2 ?dest = Inr sc"
    using wr1 r12 by (auto intro: write_then_read)
  have ascii: "stripped = (if prefix [CHR 0xEF, CHR 0xBB, CHR 0xBF] bytes
                           then drop 3 bytes else bytes)" if a: "well_formed_utf8 bytes"
  proof -
    have c: "content = bytes"
      unfolding content toString_utf8_def using a by (rule utf8_decode_well_formed)
    show ?thesis unfolding stripped c by simp
  qed
  show ?thesis
  proof (cases "opt usePlatformWww options")
    case False
    then have "w' = w2" using ok eq r12 by simp
    then show ?thesis using rd2 False ascii unfolding sc_flat by simp
  next
    case True
    then obtain u3 u4 where r34: "r3 = Inr u3" "r4 = Inr u4" and w': "w' = w4"
      using ok eq r12 by (auto simp: returning_def split: sum.splits)
    have rd3: "readFileSync w3 ?dest = Inr sc"
      using rd2 m2 by (rule read_after_mkdir)
    have rd4: "readFileSync w4 ?dest = Inr sc"
      using rd3 wr2 r34 by (auto intro: read_after_write)
    have rp4: "readFileSync w4 ?pdest = Inr sc"
      using wr2 r34 by (auto intro: write_then_read)
    show ?thesis using rd4 rp4 w' ascii unfolding sc_flat by simp
  qed
qed

text \<open>
  C9, at the two modules of the sample plugin. \<^verbatim>\<open>www/foo.json\<close> is installed under both web
  roots: its source is the bytes \<^verbatim>\<open>EF BB BF\<close>, then \<^verbatim>\<open>{"a": "\<close>, the bytes \<^verbatim>\<open>E9 C3 A9\<close> and
  \<^verbatim>\<open>"}\<close>, and the module file holds neither the byte order mark nor the byte \<^verbatim>\<open>E9\<close>, which
  is not UTF-8 and has become \<^verbatim>\<open>EF BF BD\<close>; the bytes \<^verbatim>\<open>C3 A9\<close> are as they were.
  \<^verbatim>\<open>www/bar.json\<close>, with the name \<^verbatim>\<open>Bar\<close>, is well-formed and is in the module file byte for
  byte.
\<close>

theorem js_module_install_json_witness:
  \<open>readFileSync sample_world ''/plugin/www/foo.json''
     = Inr ([CHR 0xEF, CHR 0xBB, CHR 0xBF] @ ''{"a": "'' @ [CHR 0xE9, CHR 0xC3, CHR 0xA9] @ ''"}'')
   \<and> readFileSync (snd (js_module_install json_directive sample_plugin sample_project
       (Some \<lparr>force = False, link = False, usePlatformWww = True\<rparr>) sample_world))
     ''/proj/www/plugins/org.x/www/foo.json''
     = Inr (''cordova.define("org.x.foo", function(require, exports, module) {\<newline>module.exports = {"a": "''
            @ [CHR 0xEF, CHR 0xBF, CHR 0xBD, CHR 0xC3, CHR 0xA9] @ ''"}\<newline>});\<newline>'')
   \<and> readFileSync (snd (js_module_install json_directive sample_plugin sample_project
       (Some \<lparr>force = False, link = False, usePlatformWww = True\<rparr>) sample_world))
     ''/proj/platform_www/plugins/org.x/www/foo.json''
     = Inr (''cordova.define("org.x.foo", function(require, exports, module) {\<newline>module.exports = {"a": "''
            @ [CHR 0xEF, CHR 0xBF, CHR 0xBD, CHR 0xC3, CHR 0xA9] @ ''"}\<newline>});\<newline>'')
   \<and> readFileSync sample_world ''/plugin/www/bar.json''
     = Inr (''{"b": "'' @ [CHR 0xC3, CHR 0xA9] @ ''"}'')
   \<and> well_formed_utf8 (''{"b": "'' @ [CHR 0xC3, CHR 0xA9] @ ''"}'')
   \<and> readFileSync (snd (js_module_install named_json_directive sample_plugin sample_project
       None sample_world))
     ''/proj/www/plugins/org.x/www/bar.json''
     = Inr (''cordova.define("org.x.Bar", function(require, exports, module) {\<newline>module.exports = {"b": "''
            @ [CHR 0xC3, CHR 0xA9] @ ''"}\<newline>});\<newline>'')\<close>
proof -
  let ?o = "Some \<lparr>force = False, link = False, usePlatformWww = True\<rparr>"
  let ?r = "js_module_install json_directive sample_plugin sample_project ?o sample_world"
  let ?bytes = \<open>[CHR 0xEF, CHR 0xBB, CHR 0xBF] @ ''{"a": "'' @ [CHR 0xE9, CHR 0xC3, CHR 0xA9] @ ''"}''\<close>
  let ?content = \<open>[CHR 0xEF, CHR 0xBB, CHR 0xBF] @ ''{"a": "''
                   @ [CHR 0xEF, CHR 0xBF, CHR 0xBD, CHR 0xC3, CHR 0xA9] @ ''"}''\<close>
  let ?stripped = \<open>''{"a": "'' @ [CHR 0xEF, CHR 0xBF, CHR 0xBD, CHR 0xC3, CHR 0xA9] @ ''"}''\<close>
  have h1: "src json_directive = Some ''www/foo.json''" by code_simp
  have h2: "endsWith ''www/foo.json'' ''.json''" by code_simp
  have p0: "path_resolve (cwd sample_world) [dir sample_plugin, ''www/foo.json'']
              = ''/plugin/www/foo.json''"
    by code_simp
  have h3: \<open>readFileSync sample_world (path_resolve (cwd sample_world) [dir sample_plugin, ''www/foo.json''])
              = Inr ?bytes\<close>
    by code_simp
  have f: "fst ?r = Inr json_directive" by code_simp
  have h4: "?r = (Inr json_directive, snd ?r)"
    using f by (cases ?r) simp
  have h5: "?content = toString_utf8 ?bytes" by code_simp
  have h6: "?stripped = (if prefix [CHR 0xEF, CHR 0xBB, CHR 0xBF] ?content
                         then drop 3 ?content else ?content)"
    by code_simp
  have p1: "path_resolve (cwd sample_world) [www sample_project, ''plugins'', plugin_id sample_plugin, ''www/foo.json'']
              = ''/proj/www/plugins/org.x/www/foo.json''"
    by code_simp
  have p2: "path_resolve (cwd sample_world) [platformWww sample_project, ''plugins'', plugin_id sample_plugin, ''www/foo.json'']
              = ''/proj/platform_www/plugins/org.x/www/foo.json''"
    by code_simp
  have e: \<open>''cordova.define("'' @ plugin_id sample_plugin @ ''.''
                  @ (if falsy (name json_directive)
                     then path_basename_ext ''www/foo.json'' (path_extname ''www/foo.json'')
                     else the (name json_directive))
                  @ ''", function(require, exports, module) {\<newline>''
                  @ ''module.exports = '' @ ?stripped @ ''\<newline>});\<newline>''
           = ''cordova.define("org.x.foo", function(require, exports, module) {\<newline>module.exports = {"a": "''
            @ [CHR 0xEF, CHR 0xBF, CHR 0xBD, CHR 0xC3, CHR 0xA9] @ ''"}\<newline>});\<newline>''\<close>
    by code_simp
  have o: "opt usePlatformWww ?o" by code_simp
  have foo: \<open>readFileSync (snd ?r) ''/proj/www/plugins/org.x/www/foo.json''
     = Inr (''cordova.define("org.x.foo", function(require, exports, module) {\<newline>module.exports = {"a": "''
            @ [CHR 0xEF, CHR 0xBF, CHR 0xBD, CHR 0xC3, CHR 0xA9] @ ''"}\<newline>});\<newline>'')
   \<and> readFileSync (snd ?r) ''/proj/platform_www/plugins/org.x/www/foo.json''
     = Inr (''cordova.define("org.x.foo", function(require, exports, module) {\<newline>module.exports = {"a": "''
            @ [CHR 0xEF, CHR 0xBF, CHR 0xBD, CHR 0xC3, CHR 0xA9] @ ''"}\<newline>});\<newline>'')\<close>
    using js_module_install_json[OF h1 h2 h3 h4 h5 h6] o unfolding p1 p2 e by blast
  let ?r' = "js_module_install named_json_directive sample_plugin sample_project None sample_world"
  let ?bar = \<open>''{"b": "'' @ [CHR 0xC3, CHR 0xA9] @ ''"}''\<close>
  have g1: "src named_json_directive = Some ''www/bar.json''" by code_simp
  have g2: "endsWith ''www/bar.json'' ''.json''" by code_simp
  have q0: "path_resolve (cwd sample_world) [dir sample_plugin, ''www/bar.json'']
              = ''/plugin/www/bar.json''"
    by code_simp
  have g3: \<open>readFileSync sample_world (path_resolve (cwd sample_world) [dir sample_plugin, ''www/bar.json''])
              = Inr ?bar\<close>
    by code_simp
  have f': "fst ?r' = Inr named_json_directive" by code_simp
  have g4: "?r' = (Inr named_json_directive, snd ?r')"
    using f' by (cases ?r') simp
  have wf: "well_formed_utf8 ?bar" by code_simp
  have np: "\<not> prefix [CHR 0xEF, CHR 0xBB, CHR 0xBF] ?bar" by code_simp
  have q1: "path_resolve (cwd sample_world) [www sample_project, ''plugins'', plugin_id sample_plugin, ''www/bar.json'']
              = ''/proj/www/plugins/org.x/www/bar.json''"
    by code_simp
  have e': \<open>''cordova.define("'' @ plugin_id sample_plugin @ ''.''
                  @ (if falsy (name named_json_directive)
                     then path_basename_ext ''www/bar.json'' (path_extname ''www/bar.json'')
                     else the (name named_json_directive))
                  @ ''", function(require, exports, module) {\<newline>''
                  @ ''module.exports = '' @ ?bar @ ''\<newline>});\<newline>''
           = ''cordova.define("org.x.Bar", function(require, exports, module) {\<newline>module.exports = {"b": "''
            @ [CHR 0xC3, CHR 0xA9] @ ''"}\<newline>});\<newline>''\<close>
    by code_simp
  from js_module_install_json[OF g1 g2 g3 g4 refl refl] wf
  have s': "(if prefix [CHR 0xEF, CHR 0xBB, CHR 0xBF] (toString_utf8 ?bar)
             then drop 3 (toString_utf8 ?bar) else toString_utf8 ?bar)
            = (if prefix [CHR 0xEF, CHR 0xBB, CHR 0xBF] ?bar then drop 3 ?bar else ?bar)"
    by blast
  have s'': "(if prefix [CHR 0xEF, CHR 0xBB, CHR 0xBF] (toString_utf8 ?bar)
             then drop 3 (toString_utf8 ?bar) else toString_utf8 ?bar) = ?bar"
    unfolding s' using np by (simp only: if_False)
  have bar: \<open>readFileSync (snd ?r') ''/proj/www/plugins/org.x/www/bar.json''
     = Inr (''cordova.define("org.x.Bar", function(require, exports, module) {\<newline>module.exports = {"b": "''
            @ [CHR 0xC3, CHR 0xA9] @ ''"}\<newline>});\<newline>'')\<close>
    using js_module_install_json[OF g1 g2 g3 g4 refl refl] unfolding s'' q1 e' by blast
  show ?thesis
    using foo bar h3[unfolded p0] g3[unfolded q0] wf by blast
qed

end
